theory Spec2Isabelle
  imports Complex_Main
begin

section \<open>Python primitives used by the planner and the geometry helpers\<close>

text \<open>
  Python floats are modelled as real numbers: every arithmetic operation is exact. The
  integers of Python are unbounded and are modelled as \<open>int\<close>. Exceptions are values of
  the type \<open>error\<close>; a function that can raise returns \<open>error + 'a\<close> with \<open>Inl\<close> for
  the exception. \<open>InvalidGeometryError\<close> is the error the design document names; no
  function of the source raises it, and it only occurs in the definitions that follow the
  design document's words.
\<close>

datatype error =
    OutOfBounds
  | ValueError
  | OverflowError
  | ZeroDivisionError
  | InvalidGeometryError

text \<open>\<open>int(x)\<close> on a float truncates toward zero.\<close>

definition py_int_of_float :: "real \<Rightarrow> int" where
  "py_int_of_float r = (if 0 \<le> r then \<lfloor>r\<rfloor> else \<lceil>r\<rceil>)"

text \<open>\<open>math.radians\<close> / \<open>np.radians\<close>.\<close>

definition radians :: "real \<Rightarrow> real" where
  "radians d = d * pi / 180"

section \<open>geo_helper.get_map_dim_m\<close>

text \<open>
  The source computes the diagonal from the field of view and the altitude and splits it
  by the aspect ratio. It has no check of its arguments and no \<open>raise\<close>; it returns a
  triple whose third component is the altitude. (At a field of view of exactly 180 degrees
  the tangent of the real number \<open>pi / 2\<close> is not defined; HOL's \<open>tan\<close> is 0 there,
  while the floating-point tangent is a large finite number.)
\<close>

definition get_map_dim_m :: "real \<Rightarrow> real \<Rightarrow> real \<Rightarrow> real \<times> real \<times> real" where
  "get_map_dim_m fov_d agl_m aspect_ratio =
     (let d_m = 2 * agl_m * tan (radians (fov_d / 2))
      in (d_m * sin (arctan aspect_ratio),
          d_m * cos (arctan aspect_ratio),
          agl_m))"

text \<open>
  The design document's \<open>footprintMeters\<close>, written from its words: degenerate inputs
  fail with \<open>InvalidGeometryError\<close>, the others give width and height.
\<close>

definition footprintMeters :: "real \<Rightarrow> real \<Rightarrow> real \<Rightarrow> error + (real \<times> real)" where
  "footprintMeters fovDegrees altitudeM aspectRatio =
     (if 180 \<le> fovDegrees \<or> altitudeM \<le> 0 then Inl InvalidGeometryError
      else (let diagonal = 2 * altitudeM * tan (radians (fovDegrees / 2))
            in Inr (diagonal * sin (arctan aspectRatio),
                    diagonal * cos (arctan aspectRatio))))"

section \<open>geo_helper.get_zoom_from_bounds\<close>

text \<open>
  The module \<open>src/utils/consts.py\<close> is not among the sources; the constants the
  function reads from it are the fields of a record that every definition takes as a
  parameter.
\<close>

record geo_consts =
  tile_center_x :: real
  tile_center_y :: real
  pixel_per_degree :: real
  pixel_per_radian :: real
  tile_size :: real

text \<open>
  The nested function \<open>latlonToPt\<close>: the sine of the latitude is clamped to
  \<open>\<plusminus>(1 - 1E-15)\<close>, so the logarithm is always defined. The dictionary with the keys
  \<open>'x'\<close> and \<open>'y'\<close> is a pair.
\<close>

definition latlonToPt :: "geo_consts \<Rightarrow> real \<Rightarrow> real \<Rightarrow> real \<times> real" where
  "latlonToPt c lat lon =
     (let a = min (max (sin (radians lat)) (- (1 - 1 / 10 ^ 15))) (1 - 1 / 10 ^ 15)
      in (tile_center_x c + lon * pixel_per_degree c,
          tile_center_y c + 0.5 * ln ((1 + a) / (1 - a)) * - pixel_per_radian c))"

text \<open>Half the pixel span of the box in each axis (\<open>half_pw_x\<close>, \<open>half_pw_y\<close>).\<close>

definition half_pw :: "geo_consts \<Rightarrow> real \<times> real \<Rightarrow> real \<times> real \<Rightarrow> real \<times> real" where
  "half_pw c top_left bottom_right =
     (let cp_top_left = latlonToPt c (fst top_left) (snd top_left);
          cp_bottom_right = latlonToPt c (fst bottom_right) (snd bottom_right)
      in ((fst cp_bottom_right - fst cp_top_left) / 2,
          (snd cp_bottom_right - snd cp_top_left) / 2))"

text \<open>
  \<open>math.log2\<close> raises \<open>ValueError\<close> on an argument that is not positive, and the
  division raises \<open>ZeroDivisionError\<close> on a zero divisor. \<open>2 ** (zoom + 1)\<close> is a
  float when the exponent is negative, hence \<open>powr\<close>. The returned list
  \<open>[img_w, img_h]\<close> is a pair. The image size is computed before the zoom is compared
  with \<open>zoom_bound\<close> (22 by default).
\<close>

definition get_zoom_from_bounds ::
  "geo_consts \<Rightarrow> real \<times> real \<Rightarrow> real \<times> real \<Rightarrow> int \<Rightarrow> error + (int \<times> int \<times> int)" where
  "get_zoom_from_bounds c top_left bottom_right zoom_bound =
     (let (half_pw_x, half_pw_y) = half_pw c top_left bottom_right;
          img_size = tile_size c
      in if img_size = 0 then Inl ZeroDivisionError
         else if max half_pw_x half_pw_y / img_size \<le> 0 then Inl ValueError
         else
           (let zoom = py_int_of_float (- log 2 (max half_pw_x half_pw_y / img_size) - 1);
                scaling_factor = 2 powr real_of_int (zoom + 1);
                img_w = py_int_of_float (half_pw_x * scaling_factor);
                img_h = py_int_of_float (half_pw_y * scaling_factor)
            in if zoom > zoom_bound then Inl OutOfBounds
               else Inr (zoom, img_w, img_h)))"

text \<open>
  Modelled from the spec: the values of \<open>src/utils/consts.py\<close>, which is missing. The
  design document gives the maximum static image size, 640 pixels (\<open>tile_size\<close>); the other
  four are the Web-Mercator constants of a world of 256 pixels at the reference zoom, as in
  the reference that \<open>calc_bbox_api\<close> cites. They are used for concrete inputs only.
\<close>

definition google_consts :: geo_consts where
  "google_consts = \<lparr>tile_center_x = 128, tile_center_y = 128,
     pixel_per_degree = 256 / 360, pixel_per_radian = 256 / (2 * pi), tile_size = 640\<rparr>"


section \<open>geo_helper.collect_tiles\<close>

text \<open>
  The nested function \<open>generate_tile_info\<close>: the tile indices and the pixel offsets of a
  location at a zoom. The zoom is a float (the caller adds the float \<open>resolution\<close>), so
  \<open>2 ** zoom\<close> is \<open>powr\<close>. Over the reals \<open>1.0 / math.cos\<close> divides by zero at
  the poles, and \<open>math.log\<close> raises \<open>ValueError\<close> on an argument that is not positive.
  The result is the tuple \<open>(tile_x, tile_y, pixel_x, pixel_y)\<close>.
\<close>

definition generate_tile_info :: "real \<times> real \<Rightarrow> real \<Rightarrow> error + (int \<times> int \<times> int \<times> int)" where
  "generate_tile_info loc zoom =
     (let n = 2 powr zoom;
          lat = fst loc;
          lon = snd loc;
          tile_x = (lon + 180) / 360 * n
      in if cos (radians lat) = 0 then Inl ZeroDivisionError
         else if tan (radians lat) + 1 / cos (radians lat) \<le> 0 then Inl ValueError
         else
           (let tile_y = (1 - ln (tan (radians lat) + 1 / cos (radians lat)) / pi) / 2 * n;
                pixel_x = py_int_of_float (tile_x * 256 - real_of_int (py_int_of_float tile_x) * 256);
                pixel_y = py_int_of_float (tile_y * 256 - real_of_int (py_int_of_float tile_y) * 256)
            in Inr (py_int_of_float tile_x, py_int_of_float tile_y, pixel_x, pixel_y)))"

text \<open>
  One GET of the tile server: the layer code, the tile indices and the zoom that the URL
  carries. The tile server is a parameter \<open>http\<close>: whether the attempt with a given number
  for a given URL succeeds (the response is good, the image opens and is pasted).
\<close>

record tile_req =
  lyrs :: string
  req_x :: int
  req_y :: int
  req_z :: real

definition map_types :: "(string \<times> string) list" where
  "map_types = [(''satellite'', ''s''), (''roadmap'', ''m''), (''terrain'', ''t'')]"

text \<open>
  The retry loop of \<open>fetch_and_paste\<close> over the attempt numbers: it stops at the first
  attempt that succeeds. The result is the list of the requests issued and whether the
  tile was pasted.
\<close>

fun fetch_attempts :: "(tile_req \<Rightarrow> nat \<Rightarrow> bool) \<Rightarrow> tile_req \<Rightarrow> nat list \<Rightarrow> tile_req list \<times> bool" where
  "fetch_attempts http r [] = ([], False)"
| "fetch_attempts http r (attempt # rest) =
     (if http r attempt then ([r], True)
      else (let (reqs, ok) = fetch_attempts http r rest in (r # reqs, ok)))"

text \<open>
  \<open>fetch_and_paste\<close>: an unknown map type is a \<open>KeyError\<close> inside the \<open>try\<close>, caught
  like every other exception, so that no request is issued. On success the tile is pasted
  at its offset in the canvas. The closure reads \<open>zoom\<close> and \<open>tl_info\<close> from
  \<open>collect_tiles\<close>; here they are arguments.
\<close>

definition fetch_and_paste ::
  "(tile_req \<Rightarrow> nat \<Rightarrow> bool) \<Rightarrow> real \<Rightarrow> int \<times> int \<times> int \<times> int \<Rightarrow> int \<Rightarrow> int \<Rightarrow> string \<Rightarrow> nat
   \<Rightarrow> tile_req list \<times> (int \<times> int) option" where
  "fetch_and_paste http zoom tl_info tile_id_x tile_id_y map_type max_retries =
     (case map_of map_types map_type of
        None \<Rightarrow> ([], None)
      | Some code \<Rightarrow>
          (let (reqs, ok) =
                 fetch_attempts http
                   \<lparr>lyrs = code, req_x = tile_id_x, req_y = tile_id_y, req_z = zoom\<rparr>
                   [1 ..< max_retries + 1];
               offset_x = (tile_id_x - fst tl_info) * 256;
               offset_y = (tile_id_y - fst (snd tl_info)) * 256
           in (reqs, if ok then Some (offset_x, offset_y) else None)))"

text \<open>
  The stitched image: the size of the canvas that \<open>Image.new\<close> allocates, the offsets of
  the tiles pasted into it, and the box it is cropped to.
\<close>

record mosaic =
  canvas :: "int \<times> int"
  pasted :: "(int \<times> int) list"
  crop_box :: "int \<times> int \<times> int \<times> int"

text \<open>
  \<open>collect_tiles\<close>. The result is the image or the exception, together with the requests
  issued. \<open>Image.new\<close> of the image library refuses a negative width or height with
  \<open>ValueError\<close>. The tiles are submitted to a thread pool row by row; the model runs
  them in the order of submission. The source has no check of the tile span.
\<close>

definition collect_tiles ::
  "(tile_req \<Rightarrow> nat \<Rightarrow> bool) \<Rightarrow> real \<times> real \<Rightarrow> real \<times> real \<Rightarrow> int \<Rightarrow> string \<Rightarrow> real
   \<Rightarrow> (error + mosaic) \<times> tile_req list" where
  "collect_tiles http top_left bottom_right zoom map_type resolution =
     (let zoom = min (real_of_int zoom + resolution) 22
      in case generate_tile_info top_left zoom of
           Inl e \<Rightarrow> (Inl e, [])
         | Inr tl_info \<Rightarrow>
             (case generate_tile_info bottom_right zoom of
                Inl e \<Rightarrow> (Inl e, [])
              | Inr br_info \<Rightarrow>
                  (let (tl_x, tl_y, tl_px, tl_py) = tl_info;
                       (br_x, br_y, br_px, br_py) = br_info;
                       n_tiles_x = br_x - tl_x + 1;
                       n_tiles_y = br_y - tl_y + 1;
                       img_w = \<bar>br_px + 256 * (n_tiles_x - 1) - tl_px\<bar>;
                       img_h = \<bar>br_py + 256 * (n_tiles_y - 1) - tl_py\<bar>
                   in if n_tiles_x * 256 < 0 \<or> n_tiles_y * 256 < 0 then (Inl ValueError, [])
                      else
                        (let tasks = concat (map (\<lambda>tile_id_y.
                                         map (\<lambda>tile_id_x.
                                           fetch_and_paste http zoom tl_info tile_id_x tile_id_y
                                             map_type 10)
                                           [tl_x .. br_x])
                                         [tl_y .. br_y])
                         in (Inr \<lparr>canvas = (n_tiles_x * 256, n_tiles_y * 256),
                                  pasted = List.map_filter snd tasks,
                                  crop_box = (tl_px, tl_py, tl_px + img_w, tl_py + img_h)\<rparr>,
                             concat (map fst tasks))))))"

text \<open>A tile server on which every attempt succeeds, for concrete runs.\<close>

definition tile_server_up :: "tile_req \<Rightarrow> nat \<Rightarrow> bool" where
  "tile_server_up r attempt = True"



section \<open>Python numbers and strings in file names\<close>

text \<open>
  The built-in \<open>round\<close> rounds half to even. \<open>py_round_half_even\<close> rounds a real to an
  integer; \<open>round(x, 7)\<close> is \<open>py_round_half_even (x * 10 ^ 7)\<close> counted in units of
  \<open>1E-7\<close>, and \<open>np.round(x, n)\<close> is the same at \<open>n\<close> places.
\<close>

definition py_round_half_even :: "real \<Rightarrow> int" where
  "py_round_half_even r =
     (let n = \<lfloor>r\<rfloor>; f = r - real_of_int n
      in if f < 1 / 2 then n
         else if 1 / 2 < f then n + 1
         else if even n then n else n + 1)"

definition np_round :: "real \<Rightarrow> nat \<Rightarrow> real" where
  "np_round r ndigits = real_of_int (py_round_half_even (r * 10 ^ ndigits)) / 10 ^ ndigits"

text \<open>\<open>str\<close> of an integer: decimal digits, with a minus sign when negative.\<close>

definition digit_char :: "nat \<Rightarrow> char" where
  "digit_char d = ''0123456789'' ! d"

function str_nat :: "nat \<Rightarrow> string" where
  "str_nat n = (if n < 10 then [digit_char n] else str_nat (n div 10) @ [digit_char (n mod 10)])"
  by pat_completeness auto
termination
  by (relation "measure id") auto

declare str_nat.simps [simp del]

definition str_int :: "int \<Rightarrow> string" where
  "str_int i = (if i < 0 then CHR ''-'' # str_nat (nat (- i)) else str_nat (nat i))"

text \<open>
  \<open>str\<close> of a float that is a multiple of \<open>1E-7\<close>, given as the number \<open>k\<close> of units:
  the shortest decimal that reads back as the same float. From \<open>1E-4\<close> up to \<open>1E16\<close> in
  magnitude (every coordinate in degrees that is not within 0.0001 of zero) that is the
  integer part, a point, and the seven decimals without their trailing zeros, at least one
  digit. Below \<open>1E-4\<close> it is the exponent notation (\<open>5e-05\<close>, \<open>1.25e-05\<close>); zero is
  \<open>0.0\<close> (the reals have no negative zero).
\<close>

definition strip_zeros :: "string \<Rightarrow> string" where
  "strip_zeros ds = rev (dropWhile (\<lambda>c. c = CHR ''0'') (rev ds))"

definition pad7 :: "nat \<Rightarrow> string" where
  "pad7 n = replicate (7 - length (str_nat n)) (CHR ''0'') @ str_nat n"

definition str_float7 :: "int \<Rightarrow> string" where
  "str_float7 k =
     (let a = nat \<bar>k\<bar>;
          sign = (if k < 0 then ''-'' else '''')
      in if a = 0 then ''0.0''
         else if a < 1000 then
           (let ds = str_nat a;
                rest = strip_zeros (tl ds)
            in sign @ [hd ds] @ (if rest = [] then [] else CHR ''.'' # rest)
                 @ ''e-0'' @ str_nat (7 - (length ds - 1)))
         else
           (let frac = strip_zeros (pad7 (a mod 10 ^ 7))
            in sign @ str_nat (a div 10 ^ 7) @ ''.'' @ (if frac = [] then ''0'' else frac)))"

text \<open>\<open>str(round(v, 7))\<close>.\<close>

definition str_round7 :: "real \<Rightarrow> string" where
  "str_round7 v = str_float7 (py_round_half_even (v * 10 ^ 7))"

text \<open>
  The name under which the planner saves a cell (\<open>out_name\<close> in the grid walk of
  \<open>gen_raster_from_map\<close>).
\<close>

definition out_name :: "int \<Rightarrow> int \<Rightarrow> real \<Rightarrow> real \<Rightarrow> int \<Rightarrow> string" where
  "out_name i j phi lamda raster_zoom =
     str_int i @ ''_'' @ str_int j @ ''_'' @ str_round7 phi @ ''_'' @ str_round7 lamda
       @ ''_'' @ str_int raster_zoom @ ''.jpg''"

text \<open>
  The design document's naming contract, written from its words:
  \<open>{col}_{row}_{lat:.7f}_{lon:.7f}_{zoom}.jpg\<close>, where \<open>.7f\<close> is the fixed notation
  with exactly seven decimals.
\<close>

definition fmt_7f :: "real \<Rightarrow> string" where
  "fmt_7f v =
     (let k = py_round_half_even (v * 10 ^ 7); a = nat \<bar>k\<bar>
      in (if k < 0 then ''-'' else '''') @ str_nat (a div 10 ^ 7) @ ''.'' @ pad7 (a mod 10 ^ 7))"

definition contract_name :: "int \<Rightarrow> int \<Rightarrow> real \<Rightarrow> real \<Rightarrow> int \<Rightarrow> string" where
  "contract_name col row lat lon zoom =
     str_int col @ ''_'' @ str_int row @ ''_'' @ fmt_7f lat @ ''_'' @ fmt_7f lon
       @ ''_'' @ str_int zoom @ ''.jpg''"

text \<open>\<open>s.split(sep)\<close> with a separator of one character, and \<open>s[:-4]\<close>.\<close>

fun py_split :: "char \<Rightarrow> string \<Rightarrow> string list" where
  "py_split sep [] = [[]]"
| "py_split sep (c # cs) =
     (let r = py_split sep cs in if c = sep then [] # r else (c # hd r) # tl r)"

definition drop_last4 :: "string \<Rightarrow> string" where
  "drop_last4 s = take (length s - 4) s"

section \<open>The environment of the planner\<close>

text \<open>
  The libraries that the planner calls are parameters: the two projections of \<open>pyproj\<close>
  for the UTM zone of the mission (\<open>geo2utm\<close> and \<open>utm2geo\<close> of \<open>geo_helper\<close> only
  call the transformer), the destination point of \<open>geopy\<close>'s geodesic, the tile server,
  the built-in \<open>int\<close> and \<open>float\<close> on strings (\<open>None\<close> is \<open>ValueError\<close>), and the
  answer to the prompt (whether it is \<open>y\<close> or \<open>yes\<close>).
\<close>

record env =
  geo2utm :: "real \<Rightarrow> real \<Rightarrow> real \<times> real"
  utm2geo :: "real \<Rightarrow> real \<Rightarrow> real \<times> real"
  destination :: "real \<Rightarrow> real \<times> real \<Rightarrow> real \<Rightarrow> real \<times> real"
  tile_server :: "tile_req \<Rightarrow> nat \<Rightarrow> bool"
  py_int :: "string \<Rightarrow> int option"
  py_float :: "string \<Rightarrow> real option"
  proceed :: bool

section \<open>geo_helper.meters2geo and geo_helper.calc_bbox_m\<close>

definition meters2geo :: "env \<Rightarrow> real \<times> real \<Rightarrow> real \<times> real \<Rightarrow> (real \<times> real) \<times> (real \<times> real)" where
  "meters2geo e center img_size =
     (let img_w_m = fst img_size / 2;
          img_h_m = snd img_size / 2;
          (cxm, cym) = geo2utm e (fst center) (snd center);
          brm = (cxm + img_w_m, cym - img_h_m);
          tlm = (cxm - img_w_m, cym + img_h_m);
          top_left = utm2geo e (fst tlm) (snd tlm);
          bottom_right = utm2geo e (fst brm) (snd brm)
      in (top_left, bottom_right))"

definition calc_bbox_m :: "env \<Rightarrow> real \<times> real \<Rightarrow> real \<times> real \<Rightarrow> (real \<times> real) \<times> (real \<times> real)" where
  "calc_bbox_m e center_coords bbox_m =
     (let half_x = fst bbox_m / 2;
          half_y = snd bbox_m / 2;
          top_left = destination e half_y center_coords 0;
          top_left = destination e half_x top_left 270;
          bottom_right = destination e half_y center_coords 180;
          bottom_right = destination e half_x bottom_right 90
      in (top_left, bottom_right))"

section \<open>terrAInav: the grid of the mission\<close>

text \<open>
  The fields of \<open>self.log\<close> that the planner reads and writes, the arguments of the mission
  (\<open>self.args\<close>, \<open>self.map_type\<close>, \<open>self.overlap\<close>) and the constants.
\<close>

record log =
  map_size_x_m :: real
  map_size_y_m :: real
  single_img_size_x_m :: real
  single_img_size_y_m :: real
  single_img_size_pixels :: "(int \<times> int \<times> int) option"
  n_raster_imgs_x :: int
  n_raster_imgs_y :: int
  n_raster_imgs_total :: int

record args =
  coords :: "real \<times> real \<times> real \<times> real \<times> real"
  res_level :: real
  args_map_type :: string
  args_overlap :: real
  args_consts :: geo_consts

text \<open>
  The loop of \<open>check_data\<close> that sets the number of raster images along one axis:
  \<open>int(map_size / (single_img_size * (1 - self.overlap)))\<close>. The operands are numpy
  floats, so that a zero divisor gives an infinity or a NaN, on which \<open>int\<close> raises
  \<open>OverflowError\<close> or \<open>ValueError\<close>.
\<close>

definition n_raster_imgs :: "real \<Rightarrow> real \<Rightarrow> real \<Rightarrow> error + int" where
  "n_raster_imgs map_size_m single_img_size_m overlap =
     (if single_img_size_m * (1 - overlap) = 0
      then (if map_size_m = 0 then Inl ValueError else Inl OverflowError)
      else Inr (py_int_of_float (map_size_m / (single_img_size_m * (1 - overlap)))))"

definition check_data_n_raster_imgs :: "args \<Rightarrow> log \<Rightarrow> error + log" where
  "check_data_n_raster_imgs a l =
     (case n_raster_imgs (map_size_x_m l) (single_img_size_x_m l) (args_overlap a) of
        Inl err \<Rightarrow> Inl err
      | Inr nx \<Rightarrow>
          (case n_raster_imgs (map_size_y_m l) (single_img_size_y_m l) (args_overlap a) of
             Inl err \<Rightarrow> Inl err
           | Inr ny \<Rightarrow>
               Inr (l\<lparr>n_raster_imgs_x := nx, n_raster_imgs_y := ny,
                       n_raster_imgs_total := nx * ny\<rparr>)))"

section \<open>terrAInav.gen_raster_from_map\<close>

text \<open>
  The mission directory \<open>data_dir / data_info['x']\<close> is a list of files, name and image;
  \<open>img.save\<close> replaces a file of the same name.
\<close>

type_synonym disk = "(string \<times> mosaic) list"

definition save :: "string \<Rightarrow> mosaic \<Rightarrow> disk \<Rightarrow> disk" where
  "save name img d = (name, img) # filter (\<lambda>f. fst f \<noteq> name) d"

text \<open>
  The name of the last image is split into its five fields; a different number of fields,
  or a field that \<open>int\<close> or \<open>float\<close> refuses, is a \<open>ValueError\<close>.
\<close>

definition parse_last_img_name :: "env \<Rightarrow> string \<Rightarrow> error + (int \<times> int \<times> real \<times> real)" where
  "parse_last_img_name e last_img_name =
     (case py_split (CHR ''_'') (drop_last4 last_img_name) of
        [f1, f2, f3, f4, f5] \<Rightarrow>
          (case py_int e f1 of None \<Rightarrow> Inl ValueError | Some i_last \<Rightarrow>
          (case py_int e f2 of None \<Rightarrow> Inl ValueError | Some j_last \<Rightarrow>
          (case py_float e f3 of None \<Rightarrow> Inl ValueError | Some phi \<Rightarrow>
          (case py_float e f4 of None \<Rightarrow> Inl ValueError | Some lamda \<Rightarrow>
             Inr (i_last, j_last, phi, lamda)))))
      | _ \<Rightarrow> Inl ValueError)"

text \<open>
  What the walk reads without changing it: the bottom right corner, the log, the arguments,
  the parameter \<open>overlap\<close>, \<open>x_left\<close> and \<open>raster_zoom\<close>. The state of the walk: the cursor in the projected
  frame and in degrees, the directory, and the requests sent to the tile server.
\<close>

record walk_ctx =
  ctx_bottom_right :: "real \<times> real"
  ctx_log :: log
  ctx_args :: args
  ctx_overlap :: real
  ctx_x_left :: real
  ctx_raster_zoom :: int

record walk_state =
  ws_x :: real
  ws_y :: real
  ws_phi :: real
  ws_lamda :: real
  ws_disk :: disk
  ws_requests :: "tile_req list"

text \<open>
  Where the planner starts: \<open>Complete\<close> when the last image is the last cell, otherwise the
  indices of the next cell with the cursor. Without a last image (\<open>-1\<close> in the source,
  \<open>None\<close> here) it starts at the top left.
\<close>

datatype start = Complete | Cursor int int real real real real

definition resume_cursor ::
  "env \<Rightarrow> walk_ctx \<Rightarrow> real \<times> real \<Rightarrow> real \<times> real \<Rightarrow> string option \<Rightarrow> error + start" where
  "resume_cursor e c top_left_coords tlm last_img_name =
     (let raster_wy = single_img_size_y_m (ctx_log c);
          raster_wx = single_img_size_x_m (ctx_log c);
          n_images_x = n_raster_imgs_x (ctx_log c);
          n_images_y = n_raster_imgs_y (ctx_log c);
          ovl = ctx_overlap c
      in case last_img_name of
           Some name \<Rightarrow>
             (case parse_last_img_name e name of
                Inl err \<Rightarrow> Inl err
              | Inr (i_last, j_last, phi, lamda) \<Rightarrow>
                  (let (x, y) = geo2utm e phi lamda
                   in if [i_last + 1, j_last + 1] = [n_images_x, n_images_y] then Inr Complete
                      else
                        (let (i_last, j_last, x, y) =
                               (if i_last < n_images_x - 1
                                then (i_last + 1, j_last, x + raster_wx * (100 - ovl) / 100, y)
                                else (0, j_last + 1, ctx_x_left c, y - raster_wy * (100 - ovl) / 100));
                             (phi, lamda) = utm2geo e x y
                         in Inr (Cursor i_last j_last x y phi lamda))))
         | None \<Rightarrow>
             Inr (Cursor 0 0 (fst tlm) (snd tlm) (fst top_left_coords) (snd top_left_coords)))"

text \<open>
  The inner \<open>while\<close> loop over the columns of row \<open>j\<close>. A cell is checked against the
  bottom right corner, named, stitched and saved; then the cursor moves east and only the
  longitude is converted back.
\<close>

function walk_cols :: "env \<Rightarrow> walk_ctx \<Rightarrow> int \<Rightarrow> int \<Rightarrow> walk_state \<Rightarrow> error option \<times> walk_state" where
  "walk_cols e c j i s =
     (let raster_wy = single_img_size_y_m (ctx_log c);
          raster_wx = single_img_size_x_m (ctx_log c);
          n_images_x = n_raster_imgs_x (ctx_log c);
          ovl = ctx_overlap c
      in if i < n_images_x then
           (if ws_phi s < fst (ctx_bottom_right c) - raster_wx - 0.02
               \<or> ws_lamda s > snd (ctx_bottom_right c) + raster_wy + 0.02
            then (Some OutOfBounds, s)
            else
              (let name = out_name i j (ws_phi s) (ws_lamda s) (ctx_raster_zoom c);
                   (curr_tl, curr_br) = calc_bbox_m e (ws_phi s, ws_lamda s) (raster_wx, raster_wy);
                   (img, reqs) = collect_tiles (tile_server e) curr_tl curr_br (ctx_raster_zoom c)
                                   (args_map_type (ctx_args c)) (res_level (ctx_args c))
               in case img of
                    Inl err \<Rightarrow> (Some err, s\<lparr>ws_requests := ws_requests s @ reqs\<rparr>)
                  | Inr im \<Rightarrow>
                      (let x = ws_x s + raster_wx * (100 - ovl) / 100;
                           lamda = snd (utm2geo e x (ws_y s))
                       in walk_cols e c j (i + 1)
                            (s\<lparr>ws_x := x, ws_lamda := lamda,
                               ws_disk := save name im (ws_disk s),
                               ws_requests := ws_requests s @ reqs\<rparr>))))
         else (None, s))"
  by pat_completeness auto
termination
  by (relation "measure (\<lambda>(e, c, j, i, s). nat (n_raster_imgs_x (ctx_log c) - i))") auto

declare walk_cols.simps [simp del]

text \<open>
  The outer \<open>for\<close> loop over the rows \<open>range(j_last, n_images_y)\<close>: the first row starts
  at column \<open>i_last\<close>, the others at column 0; after a row the cursor moves south and back
  to \<open>x_left\<close>, and both coordinates are converted back.
\<close>

fun walk_rows ::
  "env \<Rightarrow> walk_ctx \<Rightarrow> int \<Rightarrow> int \<Rightarrow> int list \<Rightarrow> walk_state \<Rightarrow> error option \<times> walk_state" where
  "walk_rows e c i_last j_last [] s = (None, s)"
| "walk_rows e c i_last j_last (j # js) s =
     (let i = (if j = j_last then i_last else 0)
      in case walk_cols e c j i s of
           (Some err, s') \<Rightarrow> (Some err, s')
         | (None, s') \<Rightarrow>
             (let y = ws_y s' - single_img_size_y_m (ctx_log c) * (100 - ctx_overlap c) / 100;
                  x = ctx_x_left c;
                  (phi, lamda) = utm2geo e x y
              in walk_rows e c i_last j_last js
                   (s'\<lparr>ws_x := x, ws_y := y, ws_phi := phi, ws_lamda := lamda\<rparr>)))"

text \<open>
  \<open>gen_raster_from_map\<close>. The result says how the call ended, and gives the log, the
  directory and the requests sent to the tile server.
\<close>

datatype outcome = Raised error | AllDownloaded | NotProceeding | Walked

definition gen_raster_from_map ::
  "env \<Rightarrow> args \<Rightarrow> log \<Rightarrow> disk \<Rightarrow> real \<times> real \<Rightarrow> real \<times> real \<Rightarrow> real \<Rightarrow> string option
   \<Rightarrow> outcome \<times> log \<times> disk \<times> tile_req list" where
  "gen_raster_from_map e a l d top_left_coords bottom_right_coords overlap last_img_name =
     (let (c0, c1, c2, c3, agl) = coords a;
          (top_left, bottom_right) =
             meters2geo e (c0, c1) (single_img_size_x_m l, single_img_size_y_m l)
      in case get_zoom_from_bounds (args_consts a) top_left bottom_right 22 of
           Inl err \<Rightarrow> (Raised err, l, d, [])
         | Inr (raster_zoom, img_w, img_h) \<Rightarrow>
             (let l = l\<lparr>single_img_size_pixels := Some (img_w, img_h, raster_zoom)\<rparr>;
                  tlm = geo2utm e (fst top_left) (snd top_left);
                  brm = geo2utm e (fst bottom_right) (snd bottom_right);
                  c = \<lparr>ctx_bottom_right = bottom_right_coords, ctx_log = l, ctx_args = a,
                       ctx_overlap = overlap, ctx_x_left = fst tlm, ctx_raster_zoom = raster_zoom\<rparr>
              in case resume_cursor e c top_left_coords tlm last_img_name of
                   Inl err \<Rightarrow> (Raised err, l, d, [])
                 | Inr Complete \<Rightarrow> (AllDownloaded, l, d, [])
                 | Inr (Cursor i_last j_last x y phi lamda) \<Rightarrow>
                     (if proceed e then
                        (case walk_rows e c i_last j_last [j_last .. n_raster_imgs_y l - 1]
                                \<lparr>ws_x = x, ws_y = y, ws_phi = phi, ws_lamda = lamda,
                                 ws_disk = d, ws_requests = []\<rparr> of
                           (Some err, s) \<Rightarrow> (Raised err, l, ws_disk s, ws_requests s)
                         | (None, s) \<Rightarrow> (Walked, l, ws_disk s, ws_requests s))
                      else (NotProceeding, l, d, []))))"

section \<open>terrAInav.complete_download\<close>

text \<open>
  \<open>natsorted\<close> of the library \<open>natsort\<close> compares strings by their key: the string cut into
  the runs of digits, read as numbers, and the text between them, starting with a text that
  may be empty. Keys are compared like tuples. All paths of the directory share the prefix
  that ends in a slash, so the order of the paths is the order of the file names.
\<close>

datatype token = Text string | Number nat

definition is_digit :: "char \<Rightarrow> bool" where
  "is_digit ch = (ch \<in> set ''0123456789'')"

definition digit_val :: "char \<Rightarrow> nat" where
  "digit_val ch = of_char ch - 48"

fun natsort_step :: "token list \<Rightarrow> char \<Rightarrow> token list" where
  "natsort_step (Number n # ts) ch =
     (if is_digit ch then Number (10 * n + digit_val ch) # ts else Text [ch] # Number n # ts)"
| "natsort_step (Text t # ts) ch =
     (if is_digit ch then Number (digit_val ch) # Text t # ts else Text (t @ [ch]) # ts)"
| "natsort_step [] ch = (if is_digit ch then [Number (digit_val ch), Text []] else [Text [ch]])"

definition natsort_key :: "string \<Rightarrow> token list" where
  "natsort_key s = rev (foldl natsort_step [Text []] s)"

fun text_less :: "string \<Rightarrow> string \<Rightarrow> bool" where
  "text_less [] [] = False"
| "text_less [] (b # bs) = True"
| "text_less (a # as) [] = False"
| "text_less (a # as) (b # bs) =
     ((of_char a :: nat) < of_char b \<or> (a = b \<and> text_less as bs))"

fun key_less :: "token list \<Rightarrow> token list \<Rightarrow> bool" where
  "key_less [] [] = False"
| "key_less [] (b # bs) = True"
| "key_less (a # as) [] = False"
| "key_less (Number m # as) (Number n # bs) = (m < n \<or> (m = n \<and> key_less as bs))"
| "key_less (Text t # as) (Text u # bs) = (text_less t u \<or> (t = u \<and> key_less as bs))"
| "key_less (Number m # as) (Text u # bs) = False"
| "key_less (Text t # as) (Number n # bs) = False"

text \<open>
  The first element of \<open>natsorted(names, reverse=True)\<close>: the first of the names with the
  greatest key; \<open>-1\<close> (here \<open>None\<close>) when there is no image.
\<close>

definition latest_image_name :: "string list \<Rightarrow> string option" where
  "latest_image_name names =
     (case names of
        [] \<Rightarrow> None
      | n # ns \<Rightarrow>
          Some (foldl (\<lambda>best m. if key_less (natsort_key best) (natsort_key m) then m else best)
                  n ns))"

definition is_jpg :: "string \<Rightarrow> bool" where
  "is_jpg name = (4 \<le> length name \<and> drop (length name - 4) name = ''.jpg'')"

definition complete_download :: "env \<Rightarrow> args \<Rightarrow> log \<Rightarrow> disk \<Rightarrow> outcome \<times> log \<times> disk \<times> tile_req list" where
  "complete_download e a l d =
     (let (c0, c1, c2, c3, agl) = coords a;
          latest = latest_image_name (filter is_jpg (map fst d))
      in gen_raster_from_map e a l d (c0, c1) (c2, c3) (args_overlap a) latest)"

section \<open>A concrete environment\<close>

text \<open>
  For concrete runs: parsers of plain decimal numerals, on which they agree with \<open>int\<close>
  and \<open>float\<close>; a flat projection in which one degree is 100000 metres in both axes; and a
  tile server that always answers.
\<close>

definition dec_nat :: "string \<Rightarrow> nat option" where
  "dec_nat s =
     (if s \<noteq> [] \<and> list_all is_digit s
      then Some (foldl (\<lambda>n ch. 10 * n + digit_val ch) 0 s) else None)"

definition dec_int :: "string \<Rightarrow> int option" where
  "dec_int s =
     (case s of
        ch # r \<Rightarrow> (if ch = CHR ''-'' then map_option (\<lambda>n. - int n) (dec_nat r)
                   else map_option int (dec_nat s))
      | [] \<Rightarrow> None)"

definition dec_float :: "string \<Rightarrow> real option" where
  "dec_float s =
     (let neg = (s \<noteq> [] \<and> hd s = CHR ''-'');
          body = (if neg then tl s else s);
          ip = takeWhile (\<lambda>ch. ch \<noteq> CHR ''.'') body;
          fp = drop (length ip + 1) body
      in case (dec_nat ip, if fp = [] then Some 0 else dec_nat fp) of
           (Some m, Some n) \<Rightarrow>
             Some ((if neg then - 1 else 1) * (real m + real n / 10 ^ length fp))
         | _ \<Rightarrow> None)"

definition flat_destination :: "real \<Rightarrow> real \<times> real \<Rightarrow> real \<Rightarrow> real \<times> real" where
  "flat_destination meters p bearing =
     (if bearing = 0 then (fst p + meters / 100000, snd p)
      else if bearing = 90 then (fst p, snd p + meters / 100000)
      else if bearing = 180 then (fst p - meters / 100000, snd p)
      else (fst p, snd p - meters / 100000))"

definition flat_env :: env where
  "flat_env = \<lparr>geo2utm = (\<lambda>lat lon. (lon * 100000, lat * 100000)),
               utm2geo = (\<lambda>x y. (y / 100000, x / 100000)),
               destination = flat_destination,
               tile_server = tile_server_up,
               py_int = dec_int,
               py_float = dec_float,
               proceed = True\<rparr>"

section \<open>Concrete missions\<close>

text \<open>
  A mission of two by two cells of 100 by 100 metres, and a context of the walk in the
  flat projection with its top left corner at \<open>(35.16, -89.9)\<close>.
\<close>

definition demo_log :: log where
  "demo_log = \<lparr>map_size_x_m = 250, map_size_y_m = 250,
      single_img_size_x_m = 100, single_img_size_y_m = 100,
      single_img_size_pixels = None,
      n_raster_imgs_x = 2, n_raster_imgs_y = 2, n_raster_imgs_total = 4\<rparr>"

definition demo_args :: args where
  "demo_args = \<lparr>coords = (3516 / 100, - 899 / 10, 35115 / 1000, - 89823 / 1000, 120),
      res_level = 2, args_map_type = ''satellite'', args_overlap = 0,
      args_consts = google_consts\<rparr>"

definition demo_ctx :: walk_ctx where
  "demo_ctx = \<lparr>ctx_bottom_right = (35115 / 1000, - 89823 / 1000), ctx_log = demo_log,
      ctx_args = demo_args, ctx_overlap = 0, ctx_x_left = - 8990050, ctx_raster_zoom = 19\<rparr>"

text \<open>
  A mission of two columns and three rows in the flat projection, interrupted after the
  cell \<open>(0, 2)\<close>: the five files of the directory are the names that the walk gives to
  the cells \<open>(0, 0)\<close>, \<open>(1, 0)\<close>, \<open>(0, 1)\<close>, \<open>(1, 1)\<close> and \<open>(0, 2)\<close>.
\<close>

definition resume_dir :: "string list" where
  "resume_dir = [''0_0_35.16_-89.9_19.jpg'', ''1_0_35.16_-89.8995_19.jpg'',
     ''0_1_35.1595_-89.9005_19.jpg'', ''1_1_35.1595_-89.8995_19.jpg'',
     ''0_2_35.1585_-89.9005_19.jpg'']"

definition resume_ctx :: walk_ctx where
  "resume_ctx = \<lparr>ctx_bottom_right = (35157 / 1000, - 89898 / 1000),
      ctx_log = \<lparr>map_size_x_m = 200, map_size_y_m = 300,
        single_img_size_x_m = 100, single_img_size_y_m = 100,
        single_img_size_pixels = None,
        n_raster_imgs_x = 2, n_raster_imgs_y = 3, n_raster_imgs_total = 6\<rparr>,
      ctx_args = \<lparr>coords = (3516 / 100, - 899 / 10, 35157 / 1000, - 89898 / 1000, 120),
        res_level = 2, args_map_type = ''satellite'', args_overlap = 0,
        args_consts = google_consts\<rparr>,
      ctx_overlap = 0, ctx_x_left = - 8990050, ctx_raster_zoom = 19\<rparr>"

text \<open>The number of characters after the decimal point of a number in fixed notation.\<close>

definition decimals :: "string \<Rightarrow> nat" where
  "decimals s = length (drop 1 (dropWhile (\<lambda>ch. ch \<noteq> CHR ''.'') s))"

section \<open>Properties\<close>

subsection \<open>Numbers as strings\<close>

lemma str_nat_digit: "n < 10 \<Longrightarrow> str_nat n = [digit_char n]"
  by (subst str_nat.simps) simp

lemma str_nat_step: "10 \<le> n \<Longrightarrow> str_nat n = str_nat (n div 10) @ [digit_char (n mod 10)]"
  by (subst str_nat.simps) simp

lemma replicate_numeral: "replicate (numeral k) c = c # replicate (pred_numeral k) c"
  by (simp add: numeral_eq_Suc)

lemmas str_eval = replicate_numeral str_nat_digit str_nat_step digit_char_def str_int_def
  str_float7_def str_round7_def py_round_half_even_def strip_zeros_def pad7_def Let_def

lemma digit_char_in: "d < 10 \<Longrightarrow> digit_char d \<in> set ''0123456789''"
proof -
  assume "d < 10"
  then have "d \<in> {0, 1, 2, 3, 4, 5, 6, 7, 8, 9}" by auto
  then show ?thesis by (auto simp: digit_char_def)
qed

lemma str_nat_digits: "set (str_nat n) \<subseteq> set ''0123456789''"
proof (induction n rule: str_nat.induct)
  case (1 n)
  show ?case
  proof (cases "n < 10")
    case True
    then show ?thesis using digit_char_in [of n] by (simp add: str_nat_digit)
  next
    case False
    then have "set (str_nat (n div 10)) \<subseteq> set ''0123456789''" using "1" by simp
    moreover have "digit_char (n mod 10) \<in> set ''0123456789''" by (rule digit_char_in) simp
    ultimately show ?thesis using False by (simp add: str_nat_step)
  qed
qed

lemma str_nat_nonempty: "str_nat n \<noteq> []"
  by (subst str_nat.simps) simp

lemma str_nat_no_sep: "CHR ''_'' \<notin> set (str_nat n)" "CHR ''.'' \<notin> set (str_nat n)"
  using str_nat_digits [of n] by auto

lemma str_int_no_sep: "CHR ''_'' \<notin> set (str_int i)"
  using str_nat_no_sep by (simp add: str_int_def)

lemma strip_zeros_subset: "set (strip_zeros ds) \<subseteq> set ds"
  using set_dropWhileD [of _ "\<lambda>c. c = CHR ''0''" "rev ds"] by (auto simp: strip_zeros_def)

lemma pad7_no_sep: "CHR ''_'' \<notin> set (pad7 n)"
  using str_nat_no_sep by (auto simp: pad7_def)

lemma str_float7_no_sep: "CHR ''_'' \<notin> set (str_float7 k)"
proof -
  have a: "CHR ''_'' \<notin> set (strip_zeros (tl (str_nat n)))" for n
    using strip_zeros_subset [of "tl (str_nat n)"] str_nat_no_sep(1) [of n]
      list.set_sel(2) [of "str_nat n"] str_nat_nonempty [of n] by blast
  have b: "CHR ''_'' \<noteq> hd (str_nat n)" for n
    using str_nat_no_sep(1) [of n] str_nat_nonempty [of n] list.set_sel(1) [of "str_nat n"] by metis
  have c: "CHR ''_'' \<notin> set (strip_zeros (pad7 n))" for n
    using strip_zeros_subset [of "pad7 n"] pad7_no_sep [of n] by blast
  show ?thesis
    using a b c str_nat_no_sep by (simp add: str_float7_def Let_def)
qed

lemma py_split_no_sep: "sep \<notin> set a \<Longrightarrow> py_split sep a = [a]"
  by (induction a) (auto simp: Let_def)

lemma py_split_append: "sep \<notin> set a \<Longrightarrow> py_split sep (a @ sep # b) = a # py_split sep b"
  by (induction a) (auto simp: Let_def)

lemma drop_last4_jpg: "drop_last4 (n @ ''.jpg'') = n"
  by (simp add: drop_last4_def)

lemma str_nat_length: "0 < k \<Longrightarrow> n < 10 ^ k \<Longrightarrow> length (str_nat n) \<le> k"
proof (induction n arbitrary: k rule: str_nat.induct)
  case (1 n)
  show ?case
  proof (cases "n < 10")
    case True
    then show ?thesis using "1.prems" by (simp add: str_nat_digit)
  next
    case False
    obtain k' where k: "k = Suc k'" using "1.prems"(1) by (cases k) auto
    have "k' \<noteq> 0" using False "1.prems"(2) k by (cases k') auto
    moreover have "n div 10 < 10 ^ k'" using "1.prems"(2) k by (simp add: less_mult_imp_div_less mult.commute)
    ultimately have "length (str_nat (n div 10)) \<le> k'" using "1.IH" [of k'] False by simp
    then show ?thesis using False k by (simp add: str_nat_step)
  qed
qed

lemma strip_zeros_length: "length (strip_zeros ds) \<le> length ds"
  using length_dropWhile_le [of "\<lambda>c. c = CHR ''0''" "rev ds"] by (simp add: strip_zeros_def)

lemma pad7_length: "n < 10 ^ 7 \<Longrightarrow> length (pad7 n) = 7"
  using str_nat_length [of 7 n] by (simp add: pad7_def)

lemma str_float7_decimals:
  assumes "1000 \<le> \<bar>k\<bar>"
  shows "decimals (str_float7 k) \<le> 7"
proof -
  define a where "a = nat \<bar>k\<bar>"
  define frac where "frac = strip_zeros (pad7 (a mod 10 ^ 7))"
  define F where "F = (if frac = [] then ''0'' else frac)"
  define pre where "pre = (if k < 0 then ''-'' else []) @ str_nat (a div 10 ^ 7)"
  have a: "\<not> a < 1000" "a \<noteq> 0" using assms by (simp_all add: a_def)
  have s: "str_float7 k = pre @ CHR ''.'' # F"
    using a by (simp add: str_float7_def Let_def a_def [symmetric] frac_def F_def pre_def)
  have nodot: "\<And>ch. ch \<in> set pre \<Longrightarrow> ch \<noteq> CHR ''.''"
    using str_nat_no_sep(2) by (auto simp: pre_def split: if_splits)
  have "dropWhile (\<lambda>ch. ch \<noteq> CHR ''.'') (pre @ CHR ''.'' # F) = CHR ''.'' # F"
    using nodot by simp
  then have d: "decimals (str_float7 k) = length F" by (simp add: decimals_def s)
  have "length frac \<le> 7"
    using strip_zeros_length [of "pad7 (a mod 10 ^ 7)"] pad7_length [of "a mod 10 ^ 7"]
    by (simp add: frac_def)
  then have "length F \<le> 7" by (simp add: F_def)
  with d show ?thesis by simp
qed

subsection \<open>Invariants of the grid walk\<close>

lemma save_names: "fst ` set (save name img d) = insert name (fst ` set d)"
  by (auto simp: save_def)

lemma walk_cols_invariant:
  assumes init: "P s"
    and err: "\<And>s reqs. P s \<Longrightarrow> P (s\<lparr>ws_requests := ws_requests s @ reqs\<rparr>)"
    and cell: "\<And>i s im reqs x lam. P s \<Longrightarrow>
        P (s\<lparr>ws_x := x, ws_lamda := lam,
              ws_disk := save (out_name i j (ws_phi s) (ws_lamda s) (ctx_raster_zoom c)) im (ws_disk s),
              ws_requests := ws_requests s @ reqs\<rparr>)"
  shows "P (snd (walk_cols e c j i s))"
  using init
proof (induction "nat (n_raster_imgs_x (ctx_log c) - i)" arbitrary: i s)
  case 0
  then have "\<not> i < n_raster_imgs_x (ctx_log c)" by simp
  then have "walk_cols e c j i s = (None, s)" by (subst walk_cols.simps) (simp add: Let_def)
  with "0.prems" show ?case by simp
next
  case (Suc n)
  then have lt: "i < n_raster_imgs_x (ctx_log c)" by linarith
  have m: "n = nat (n_raster_imgs_x (ctx_log c) - (i + 1))" using Suc.hyps(2) by linarith
  show ?case
    apply (subst walk_cols.simps)
    using lt Suc.prems err [OF Suc.prems] Suc.hyps(1) [OF m cell [OF Suc.prems]]
    by (simp add: Let_def split: prod.splits sum.splits)
qed

lemma walk_rows_invariant:
  assumes init: "P s"
    and err: "\<And>s reqs. P s \<Longrightarrow> P (s\<lparr>ws_requests := ws_requests s @ reqs\<rparr>)"
    and cell: "\<And>i j s im reqs x lam. P s \<Longrightarrow>
        P (s\<lparr>ws_x := x, ws_lamda := lam,
              ws_disk := save (out_name i j (ws_phi s) (ws_lamda s) (ctx_raster_zoom c)) im (ws_disk s),
              ws_requests := ws_requests s @ reqs\<rparr>)"
    and row: "\<And>s x y ph lam. P s \<Longrightarrow> P (s\<lparr>ws_x := x, ws_y := y, ws_phi := ph, ws_lamda := lam\<rparr>)"
  shows "P (snd (walk_rows e c i_last j_last js s))"
  using init
proof (induction js arbitrary: s)
  case Nil
  then show ?case by simp
next
  case (Cons j js)
  define i where "i = (if j = j_last then i_last else 0)"
  have cols: "P (snd (walk_cols e c j i s))"
    by (rule walk_cols_invariant [where P = P, OF Cons.prems err cell])
  show ?case
  proof (cases "walk_cols e c j i s")
    case (Pair r s')
    with cols have p: "P s'" by simp
    show ?thesis
    proof (cases r)
      case None
      then show ?thesis
        using Pair Cons.IH [OF row [OF p]]
        by (simp add: i_def [symmetric] Let_def split: prod.splits)
    next
      case (Some e)
      then show ?thesis using Pair p by (simp add: i_def [symmetric])
    qed
  qed
qed

lemma walk_rows_names:
  "fst ` set (ws_disk (snd (walk_rows e c i_last j_last js s)))
     \<subseteq> fst ` set (ws_disk s) \<union> {out_name i j p q (ctx_raster_zoom c) | i j p q. True}"
proof -
  define N where "N = {out_name i j p q (ctx_raster_zoom c) | i j p q. True}"
  have n: "out_name i j p q (ctx_raster_zoom c) \<in> N" for i j p q
    unfolding N_def by blast
  have "fst ` set (ws_disk (snd (walk_rows e c i_last j_last js s))) \<subseteq> fst ` set (ws_disk s) \<union> N"
  proof (rule walk_rows_invariant
      [where P = "\<lambda>s'. fst ` set (ws_disk s') \<subseteq> fst ` set (ws_disk s) \<union> N"])
    show "fst ` set (ws_disk s) \<subseteq> fst ` set (ws_disk s) \<union> N" by simp
  next
    fix s' :: walk_state and reqs
    assume "fst ` set (ws_disk s') \<subseteq> fst ` set (ws_disk s) \<union> N"
    then show "fst ` set (ws_disk (s'\<lparr>ws_requests := ws_requests s' @ reqs\<rparr>))
        \<subseteq> fst ` set (ws_disk s) \<union> N" by simp
  next
    fix i j and s' :: walk_state and im reqs x lam
    assume "fst ` set (ws_disk s') \<subseteq> fst ` set (ws_disk s) \<union> N"
    then show "fst ` set (ws_disk (s'\<lparr>ws_x := x, ws_lamda := lam,
              ws_disk := save (out_name i j (ws_phi s') (ws_lamda s') (ctx_raster_zoom c)) im (ws_disk s'),
              ws_requests := ws_requests s' @ reqs\<rparr>)) \<subseteq> fst ` set (ws_disk s) \<union> N"
      using n [of i j "ws_phi s'" "ws_lamda s'"] by (simp add: save_names)
  next
    fix s' :: walk_state and x y ph lam
    assume "fst ` set (ws_disk s') \<subseteq> fst ` set (ws_disk s) \<union> N"
    then show "fst ` set (ws_disk (s'\<lparr>ws_x := x, ws_y := y, ws_phi := ph, ws_lamda := lam\<rparr>))
        \<subseteq> fst ` set (ws_disk s) \<union> N" by simp
  qed
  then show ?thesis by (simp add: N_def)
qed

text \<open>
  How a call of \<open>gen_raster_from_map\<close> ends: either nothing is written and nothing is
  requested, or the directory and the requests are those of a walk that started from the
  given directory without requests. The log changes in the pixel size of a cell at most.
\<close>

lemma gen_raster_from_map_cases:
  obtains (quiet) r l' where "gen_raster_from_map e a l d tlc brc ov last_img = (r, l', d, [])"
      and "l' = l \<or> (\<exists>px. l' = l\<lparr>single_img_size_pixels := px\<rparr>)"
  | (walk) r l' c i_last j_last js x y ph lam s'
    where "gen_raster_from_map e a l d tlc brc ov last_img = (r, l', ws_disk s', ws_requests s')"
      and "s' = snd (walk_rows e c i_last j_last js
             \<lparr>ws_x = x, ws_y = y, ws_phi = ph, ws_lamda = lam, ws_disk = d, ws_requests = []\<rparr>)"
      and "l' = l \<or> (\<exists>px. l' = l\<lparr>single_img_size_pixels := px\<rparr>)"
proof -
  obtain c0 c1 c2 c3 agl where co: "coords a = (c0, c1, c2, c3, agl)"
    by (cases "coords a") auto
  obtain top_left bottom_right
    where m: "meters2geo e (c0, c1) (single_img_size_x_m l, single_img_size_y_m l)
                = (top_left, bottom_right)"
    by (cases "meters2geo e (c0, c1) (single_img_size_x_m l, single_img_size_y_m l)") auto
  show thesis
  proof (cases "get_zoom_from_bounds (args_consts a) top_left bottom_right 22")
    case (Inl err)
    then have "gen_raster_from_map e a l d tlc brc ov last_img = (Raised err, l, d, [])"
      by (simp add: gen_raster_from_map_def co m)
    then show thesis by (rule quiet) simp
  next
    case (Inr zs)
    obtain raster_zoom im_w im_h where zs: "zs = (raster_zoom, im_w, im_h)" by (cases zs) auto
    define l1 where "l1 = l\<lparr>single_img_size_pixels := Some (im_w, im_h, raster_zoom)\<rparr>"
    define tlm where "tlm = geo2utm e (fst top_left) (snd top_left)"
    define c where "c = \<lparr>ctx_bottom_right = brc, ctx_log = l1, ctx_args = a,
                       ctx_overlap = ov, ctx_x_left = fst tlm, ctx_raster_zoom = raster_zoom\<rparr>"
    have l1: "l1 = l \<or> (\<exists>px. l1 = l\<lparr>single_img_size_pixels := px\<rparr>)"
      unfolding l1_def by blast
    have g: "gen_raster_from_map e a l d tlc brc ov last_img =
      (case resume_cursor e c tlc tlm last_img of
         Inl err \<Rightarrow> (Raised err, l1, d, [])
       | Inr Complete \<Rightarrow> (AllDownloaded, l1, d, [])
       | Inr (Cursor i_last j_last x y phi lamda) \<Rightarrow>
           (if proceed e then
              (case walk_rows e c i_last j_last [j_last .. n_raster_imgs_y l1 - 1]
                      \<lparr>ws_x = x, ws_y = y, ws_phi = phi, ws_lamda = lamda,
                       ws_disk = d, ws_requests = []\<rparr> of
                 (Some err, s) \<Rightarrow> (Raised err, l1, ws_disk s, ws_requests s)
               | (None, s) \<Rightarrow> (Walked, l1, ws_disk s, ws_requests s))
            else (NotProceeding, l1, d, [])))"
      unfolding gen_raster_from_map_def l1_def tlm_def c_def
      by (simp add: co m Inr zs Let_def)
    show thesis
    proof (cases "resume_cursor e c tlc tlm last_img")
      case (Inl err)
      then have "gen_raster_from_map e a l d tlc brc ov last_img = (Raised err, l1, d, [])"
        using g by simp
      then show thesis using l1 by (rule quiet)
    next
      case (Inr st)
      note st = this
      show thesis
      proof (cases st)
        case Complete
        then have "gen_raster_from_map e a l d tlc brc ov last_img = (AllDownloaded, l1, d, [])"
          using g st by simp
        then show thesis using l1 by (rule quiet)
      next
        case (Cursor i_last j_last x y phi lamda)
        show thesis
        proof (cases "proceed e")
          case False
          then have "gen_raster_from_map e a l d tlc brc ov last_img = (NotProceeding, l1, d, [])"
            using g st Cursor by simp
          then show thesis using l1 by (rule quiet)
        next
          case True
          obtain r s where w: "walk_rows e c i_last j_last [j_last .. n_raster_imgs_y l1 - 1]
                      \<lparr>ws_x = x, ws_y = y, ws_phi = phi, ws_lamda = lamda,
                       ws_disk = d, ws_requests = []\<rparr> = (r, s)"
            by (cases "walk_rows e c i_last j_last [j_last .. n_raster_imgs_y l1 - 1]
                      \<lparr>ws_x = x, ws_y = y, ws_phi = phi, ws_lamda = lamda,
                       ws_disk = d, ws_requests = []\<rparr>") auto
          have "\<exists>r'. gen_raster_from_map e a l d tlc brc ov last_img
                   = (r', l1, ws_disk s, ws_requests s)"
            using g st Cursor True w by (cases r) simp_all
          then obtain r' where "gen_raster_from_map e a l d tlc brc ov last_img
                   = (r', l1, ws_disk s, ws_requests s)" by blast
          moreover have "s = snd (walk_rows e c i_last j_last [j_last .. n_raster_imgs_y l1 - 1]
                      \<lparr>ws_x = x, ws_y = y, ws_phi = phi, ws_lamda = lamda,
                       ws_disk = d, ws_requests = []\<rparr>)" using w by simp
          ultimately show thesis using l1 by (rule walk)
        qed
      qed
    qed
  qed
qed

lemma gen_raster_from_map_names:
  "fst ` set (fst (snd (snd (gen_raster_from_map e a l d tlc brc ov last_img))))
     \<subseteq> fst ` set d \<union> {out_name i j p q z | i j p q z. True}"
proof (cases rule: gen_raster_from_map_cases [of e a l d tlc brc ov last_img])
  case (quiet r l')
  then show ?thesis by simp
next
  case (walk r l' c i_last j_last js x y ph lam s')
  have "fst ` set (ws_disk s') \<subseteq> fst ` set d \<union> {out_name i j p q (ctx_raster_zoom c) | i j p q. True}"
    using walk_rows_names [of e c i_last j_last js
        "\<lparr>ws_x = x, ws_y = y, ws_phi = ph, ws_lamda = lam, ws_disk = d, ws_requests = []\<rparr>"]
    by (simp add: walk(2))
  moreover have "{out_name i j p q (ctx_raster_zoom c) | i j p q. True}
      \<subseteq> {out_name i j p q z | i j p q z. True}" by blast
  ultimately have "fst ` set (ws_disk s') \<subseteq> fst ` set d \<union> {out_name i j p q z | i j p q z. True}"
    by blast
  then show ?thesis by (simp add: walk(1))
qed


lemma gen_raster_from_map_log:
  "n_raster_imgs_x (fst (snd (gen_raster_from_map e a l d tlc brc ov last_img))) = n_raster_imgs_x l"
  "n_raster_imgs_y (fst (snd (gen_raster_from_map e a l d tlc brc ov last_img))) = n_raster_imgs_y l"
  "n_raster_imgs_total (fst (snd (gen_raster_from_map e a l d tlc brc ov last_img)))
     = n_raster_imgs_total l"
  by (cases rule: gen_raster_from_map_cases [of e a l d tlc brc ov last_img]; auto)+

text \<open>One cell of the walk, and the cursor with which the walk reaches a column.\<close>

lemma walk_cols_step:
  assumes "i < n_raster_imgs_x (ctx_log c)"
    and "\<not> (ws_phi s < fst (ctx_bottom_right c) - single_img_size_x_m (ctx_log c) - 0.02
            \<or> ws_lamda s > snd (ctx_bottom_right c) + single_img_size_y_m (ctx_log c) + 0.02)"
    and "calc_bbox_m e (ws_phi s, ws_lamda s)
           (single_img_size_x_m (ctx_log c), single_img_size_y_m (ctx_log c)) = (curr_tl, curr_br)"
    and "x' = ws_x s + single_img_size_x_m (ctx_log c) * (100 - ctx_overlap c) / 100"
  shows "walk_cols e c j i s =
     (case collect_tiles (tile_server e) curr_tl curr_br (ctx_raster_zoom c)
             (args_map_type (ctx_args c)) (res_level (ctx_args c)) of
        (Inl err, reqs) \<Rightarrow> (Some err, s\<lparr>ws_requests := ws_requests s @ reqs\<rparr>)
      | (Inr im, reqs) \<Rightarrow>
          walk_cols e c j (i + 1)
            (s\<lparr>ws_x := x', ws_lamda := snd (utm2geo e x' (ws_y s)),
               ws_disk := save (out_name i j (ws_phi s) (ws_lamda s) (ctx_raster_zoom c)) im
                            (ws_disk s),
               ws_requests := ws_requests s @ reqs\<rparr>))"
  using assms
  by (subst walk_cols.simps) (simp add: Let_def split: prod.splits sum.splits)

lemma walk_cols_reaches:
  assumes "i \<le> k" and "k \<le> n_raster_imgs_x (ctx_log c)"
  shows "(\<exists>err s'. walk_cols e c j i s = (Some err, s'))
    \<or> (\<exists>sk. walk_cols e c j i s = walk_cols e c j k sk
          \<and> ws_x sk = ws_x s + real_of_int (k - i)
                * (single_img_size_x_m (ctx_log c) * (100 - ctx_overlap c) / 100)
          \<and> ws_y sk = ws_y s \<and> ws_phi sk = ws_phi s)"
  using assms(1)
proof (induction "nat (k - i)" arbitrary: i s)
  case 0
  then have "i = k" by simp
  then show ?case by auto
next
  case (Suc n)
  then have lt: "i < n_raster_imgs_x (ctx_log c)" and ik: "i + 1 \<le> k" using assms(2) by linarith+
  have m: "n = nat (k - (i + 1))" using Suc.hyps(2) by linarith
  define step where "step = single_img_size_x_m (ctx_log c) * (100 - ctx_overlap c) / 100"
  show ?case
  proof (cases "ws_phi s < fst (ctx_bottom_right c) - single_img_size_x_m (ctx_log c) - 0.02
               \<or> ws_lamda s > snd (ctx_bottom_right c) + single_img_size_y_m (ctx_log c) + 0.02")
    case True
    then have "walk_cols e c j i s = (Some OutOfBounds, s)"
      using lt by (subst walk_cols.simps) (simp add: Let_def)
    then show ?thesis by blast
  next
    case False
    obtain curr_tl curr_br where bb: "calc_bbox_m e (ws_phi s, ws_lamda s)
        (single_img_size_x_m (ctx_log c), single_img_size_y_m (ctx_log c)) = (curr_tl, curr_br)"
      by (cases "calc_bbox_m e (ws_phi s, ws_lamda s)
        (single_img_size_x_m (ctx_log c), single_img_size_y_m (ctx_log c))") auto
    obtain img reqs where ct: "collect_tiles (tile_server e) curr_tl curr_br (ctx_raster_zoom c)
        (args_map_type (ctx_args c)) (res_level (ctx_args c)) = (img, reqs)"
      by (cases "collect_tiles (tile_server e) curr_tl curr_br (ctx_raster_zoom c)
        (args_map_type (ctx_args c)) (res_level (ctx_args c))") auto
    show ?thesis
    proof (cases img)
      case (Inl err)
      then have "walk_cols e c j i s = (Some err, s\<lparr>ws_requests := ws_requests s @ reqs\<rparr>)"
        using lt False bb ct by (subst walk_cols.simps) (simp add: Let_def)
      then show ?thesis by blast
    next
      case (Inr im)
      define s1 where "s1 = s\<lparr>ws_x := ws_x s + step,
           ws_lamda := snd (utm2geo e (ws_x s + step) (ws_y s)),
           ws_disk := save (out_name i j (ws_phi s) (ws_lamda s) (ctx_raster_zoom c)) im (ws_disk s),
           ws_requests := ws_requests s @ reqs\<rparr>"
      have u: "walk_cols e c j i s = walk_cols e c j (i + 1) s1"
        using lt False bb ct Inr
        by (subst walk_cols.simps) (simp add: Let_def s1_def step_def)
      from Suc.hyps(1) [OF m ik, of s1]
      show ?thesis
      proof
        assume "\<exists>err s'. walk_cols e c j (i + 1) s1 = (Some err, s')"
        then show ?thesis using u by simp
      next
        assume "\<exists>sk. walk_cols e c j (i + 1) s1 = walk_cols e c j k sk
          \<and> ws_x sk = ws_x s1 + real_of_int (k - (i + 1))
                * (single_img_size_x_m (ctx_log c) * (100 - ctx_overlap c) / 100)
          \<and> ws_y sk = ws_y s1 \<and> ws_phi sk = ws_phi s1"
        then obtain sk where sk: "walk_cols e c j (i + 1) s1 = walk_cols e c j k sk"
          "ws_x sk = ws_x s1 + real_of_int (k - (i + 1)) * step"
          "ws_y sk = ws_y s1" "ws_phi sk = ws_phi s1"
          unfolding step_def by blast
        have "ws_x sk = ws_x s + real_of_int (k - i) * step"
          using sk(2) by (simp add: s1_def algebra_simps)
        moreover have "ws_y sk = ws_y s" "ws_phi sk = ws_phi s" using sk(3,4) by (simp_all add: s1_def)
        ultimately show ?thesis using u sk(1) unfolding step_def by auto
      qed
    qed
  qed
qed

subsection \<open>The grid dimensions\<close>

lemma py_int_of_float_nonneg: "0 \<le> r \<Longrightarrow> py_int_of_float r = \<lfloor>r\<rfloor>"
  by (simp add: py_int_of_float_def)

lemma n_raster_imgs_nonneg:
  assumes "0 \<le> W" "0 < w" "0 \<le> ov" "ov < 1"
  shows "n_raster_imgs W w ov = Inr \<lfloor>W / (w * (1 - ov))\<rfloor>"
proof -
  have d: "0 < w * (1 - ov)" using assms by simp
  then have "0 \<le> W / (w * (1 - ov))" using assms by simp
  moreover have "w * (1 - ov) \<noteq> 0" using assms by simp
  ultimately show ?thesis by (simp only: n_raster_imgs_def py_int_of_float_nonneg if_False)
qed




text \<open>
  The far edge of the last cell, which the amended claim leaves out. With a projection
  that is inverted exactly, \<open>x_left\<close> is half a cell width west of the top left corner of
  the box; the walk reaches column \<open>k\<close> of a row with the cursor at \<open>x_left\<close> plus
  \<open>k\<close> steps (\<open>walk_cols_reaches\<close>). With an overlap of 0 the far edge of the last
  cell, half a cell width east of its cursor, is therefore at least one cell width short
  of the far edge of the box: for a box of 250 m and cells of 100 m it is 150 m short.
\<close>

lemma meters2geo_x_left:
  assumes "\<And>x y. geo2utm e (fst (utm2geo e x y)) (snd (utm2geo e x y)) = (x, y)"
    and "meters2geo e (c0, c1) (w, h) = (top_left, bottom_right)"
  shows "fst (geo2utm e (fst top_left) (snd top_left)) = fst (geo2utm e c0 c1) - w / 2"
  using assms(2) unfolding meters2geo_def Let_def
  by (auto simp: assms(1) split: prod.splits)

lemma last_cell_far_edge:
  fixes W w tlx :: real
  assumes "0 < w" and "w \<le> W" and "cols = \<lfloor>W / w\<rfloor>"
  shows "1 \<le> cols"
    and "(tlx - w / 2) + real_of_int (cols - 1) * (w * (100 - 0) / 100) + w / 2 \<le> tlx + W - w"
proof -
  have "1 \<le> W / w" using assms by simp
  then show c1: "1 \<le> cols" using assms(3) by (simp add: le_floor_iff)
  have "real_of_int cols \<le> W / w" using assms(3) by simp
  then have "real_of_int cols * w \<le> W" using assms(1) by (simp add: pos_le_divide_eq)
  then show "(tlx - w / 2) + real_of_int (cols - 1) * (w * (100 - 0) / 100) + w / 2 \<le> tlx + W - w"
    by (simp add: algebra_simps)
qed

lemma far_edge_example:
  "n_raster_imgs 250 100 0 = Inr 2
   \<and> (tlx - 100 / 2) + real_of_int (2 - 1) * (100 * (100 - 0) / 100) + 100 / 2 = tlx + 100
   \<and> (tlx + 250) - (tlx + 100) > (100::real)"
  by (simp add: n_raster_imgs_def py_int_of_float_def)

subsection \<open>Resuming an interrupted mission\<close>

text \<open>
  What the planner does with the last image, as the source has it: the mission is complete
  when the indices of the image are those of the last cell; otherwise the cursor is the
  next column, one step east of the image, or column 0 of the next row, one step south of
  the image and back at \<open>x_left\<close>.
\<close>

lemma resume_cursor_next:
  assumes "parse_last_img_name e name = Inr (i, j, phi, lamda)"
    and "geo2utm e phi lamda = (x, y)"
  shows "resume_cursor e c top_left_coords tlm (Some name) =
     (if i + 1 = n_raster_imgs_x (ctx_log c) \<and> j + 1 = n_raster_imgs_y (ctx_log c)
      then Inr Complete
      else if i < n_raster_imgs_x (ctx_log c) - 1
      then Inr (Cursor (i + 1) j
             (x + single_img_size_x_m (ctx_log c) * (100 - ctx_overlap c) / 100) y
             (fst (utm2geo e (x + single_img_size_x_m (ctx_log c) * (100 - ctx_overlap c) / 100) y))
             (snd (utm2geo e (x + single_img_size_x_m (ctx_log c) * (100 - ctx_overlap c) / 100) y)))
      else Inr (Cursor 0 (j + 1) (ctx_x_left c)
             (y - single_img_size_y_m (ctx_log c) * (100 - ctx_overlap c) / 100)
             (fst (utm2geo e (ctx_x_left c)
                (y - single_img_size_y_m (ctx_log c) * (100 - ctx_overlap c) / 100)))
             (snd (utm2geo e (ctx_x_left c)
                (y - single_img_size_y_m (ctx_log c) * (100 - ctx_overlap c) / 100)))))"
  using assms by (simp add: resume_cursor_def Let_def split: prod.splits)

lemma latest_resume_dir:
  "latest_image_name (filter is_jpg resume_dir) = Some ''1_1_35.1595_-89.8995_19.jpg''"
  by (simp add: resume_dir_def is_jpg_def latest_image_name_def natsort_key_def is_digit_def
      digit_val_def)

lemma parse_latest:
  "parse_last_img_name flat_env ''1_1_35.1595_-89.8995_19.jpg''
     = Inr (1, 1, 351595 / 10000, - 898995 / 10000)"
  by (simp add: parse_last_img_name_def drop_last4_def flat_env_def dec_int_def dec_nat_def
      dec_float_def is_digit_def digit_val_def Let_def)

lemma resumed_walk_first_cell:
  "walk_cols flat_env resume_ctx 2 0
     \<lparr>ws_x = - 8990050, ws_y = 3515850, ws_phi = 351585 / 10000,
      ws_lamda = - 899005 / 10000, ws_disk = d, ws_requests = []\<rparr> =
     (case collect_tiles tile_server_up (35159 / 1000, - 89901 / 1000) (35158 / 1000, - 899 / 10)
             19 ''satellite'' 2 of
        (Inl err, reqs) \<Rightarrow>
          (Some err, \<lparr>ws_x = - 8990050, ws_y = 3515850, ws_phi = 351585 / 10000,
                      ws_lamda = - 899005 / 10000, ws_disk = d, ws_requests = reqs\<rparr>)
      | (Inr im, reqs) \<Rightarrow>
          walk_cols flat_env resume_ctx 2 1
            \<lparr>ws_x = - 8989950, ws_y = 3515850, ws_phi = 351585 / 10000,
             ws_lamda = - 898995 / 10000,
             ws_disk = save ''0_2_35.1585_-89.9005_19.jpg'' im d, ws_requests = reqs\<rparr>)"
proof -
  define s0 where "s0 = \<lparr>ws_x = - 8990050, ws_y = 3515850, ws_phi = 351585 / 10000,
      ws_lamda = - 899005 / 10000, ws_disk = d, ws_requests = []\<rparr>"
  have n: "out_name 0 2 (ws_phi s0) (ws_lamda s0) (ctx_raster_zoom resume_ctx)
      = ''0_2_35.1585_-89.9005_19.jpg''"
    by (simp add: s0_def resume_ctx_def out_name_def str_eval)
  have b: "calc_bbox_m flat_env (ws_phi s0, ws_lamda s0)
      (single_img_size_x_m (ctx_log resume_ctx), single_img_size_y_m (ctx_log resume_ctx))
      = ((35159 / 1000, - 89901 / 1000), (35158 / 1000, - 899 / 10))"
    by (simp add: s0_def resume_ctx_def calc_bbox_m_def flat_env_def flat_destination_def Let_def)
  have i: "0 < n_raster_imgs_x (ctx_log resume_ctx)" by (simp add: resume_ctx_def)
  have nd: "\<not> (ws_phi s0 < fst (ctx_bottom_right resume_ctx)
                   - single_img_size_x_m (ctx_log resume_ctx) - 0.02
            \<or> ws_lamda s0 > snd (ctx_bottom_right resume_ctx)
                   + single_img_size_y_m (ctx_log resume_ctx) + 0.02)"
    by (simp add: s0_def resume_ctx_def)
  have x: "- 8989950 = ws_x s0 + single_img_size_x_m (ctx_log resume_ctx)
      * (100 - ctx_overlap resume_ctx) / 100"
    by (simp add: s0_def resume_ctx_def)
  have ts: "tile_server flat_env = tile_server_up"
    and u: "snd (utm2geo flat_env (- 8989950) (ws_y s0)) = - 898995 / 10000"
    by (simp_all add: flat_env_def s0_def)
  have a: "ctx_raster_zoom resume_ctx = 19" "args_map_type (ctx_args resume_ctx) = ''satellite''"
    "res_level (ctx_args resume_ctx) = 2"
    by (simp_all add: resume_ctx_def)
  have n': "out_name 0 2 (70317 / 2000) (- (179801 / 2000)) 19 = ''0_2_35.1585_-89.9005_19.jpg''"
    by (simp add: out_name_def str_eval)
  show ?thesis
    unfolding s0_def [symmetric]
    by (subst walk_cols_step [OF i nd b x], unfold n ts u a)
      (simp add: s0_def n' split: prod.splits sum.splits)
qed


text \<open>
  C2 at a directory that an interrupted mission leaves. The grid has two columns and three
  rows and the cells \<open>(0, 0)\<close>, \<open>(1, 0)\<close>, \<open>(0, 1)\<close>, \<open>(1, 1)\<close> and \<open>(0, 2)\<close> are on disk.
  The natural sort in descending order puts the greatest column first, so that the image
  taken for the latest is the one of the cell \<open>(1, 1)\<close>, not the one of \<open>(0, 2)\<close>; the
  planner resumes at the cell \<open>(0, 2)\<close>, and the name it gives that cell is the name of
  the file that is already there: the first cell of the resumed walk is stitched again and,
  when the stitch returns an image, saved over that file.
\<close>

theorem complete_download_resumes_at_existing_cell:
  "latest_image_name (filter is_jpg resume_dir) = Some ''1_1_35.1595_-89.8995_19.jpg''
   \<and> resume_cursor flat_env resume_ctx (3516 / 100, - 899 / 10) (- 8990050, 3516050)
         (Some ''1_1_35.1595_-89.8995_19.jpg'')
       = Inr (Cursor 0 2 (- 8990050) 3515850 (351585 / 10000) (- 899005 / 10000))
   \<and> out_name 0 2 (351585 / 10000) (- 899005 / 10000) (ctx_raster_zoom resume_ctx)
       = ''0_2_35.1585_-89.9005_19.jpg''
   \<and> ''0_2_35.1585_-89.9005_19.jpg'' \<in> set resume_dir
   \<and> walk_cols flat_env resume_ctx 2 0
        \<lparr>ws_x = - 8990050, ws_y = 3515850, ws_phi = 351585 / 10000,
         ws_lamda = - 899005 / 10000, ws_disk = d, ws_requests = []\<rparr> =
       (case collect_tiles tile_server_up (35159 / 1000, - 89901 / 1000) (35158 / 1000, - 899 / 10)
               19 ''satellite'' 2 of
          (Inl err, reqs) \<Rightarrow>
            (Some err, \<lparr>ws_x = - 8990050, ws_y = 3515850, ws_phi = 351585 / 10000,
                        ws_lamda = - 899005 / 10000, ws_disk = d, ws_requests = reqs\<rparr>)
        | (Inr im, reqs) \<Rightarrow>
            walk_cols flat_env resume_ctx 2 1
              \<lparr>ws_x = - 8989950, ws_y = 3515850, ws_phi = 351585 / 10000,
               ws_lamda = - 898995 / 10000,
               ws_disk = save ''0_2_35.1585_-89.9005_19.jpg'' im d, ws_requests = reqs\<rparr>)"
proof -
  have c: "resume_cursor flat_env resume_ctx (3516 / 100, - 899 / 10) (- 8990050, 3516050)
         (Some ''1_1_35.1595_-89.8995_19.jpg'')
       = Inr (Cursor 0 2 (- 8990050) 3515850 (351585 / 10000) (- 899005 / 10000))"
    by (simp add: resume_cursor_def parse_latest Let_def)
      (simp add: resume_ctx_def flat_env_def)
  have n: "out_name 0 2 (351585 / 10000) (- 899005 / 10000) (ctx_raster_zoom resume_ctx)
       = ''0_2_35.1585_-89.9005_19.jpg''"
    by (simp add: out_name_def resume_ctx_def str_eval)
  have m: "''0_2_35.1585_-89.9005_19.jpg'' \<in> set resume_dir" by (simp add: resume_dir_def)
  show ?thesis
    using latest_resume_dir c n m resumed_walk_first_cell [of d] by (intro conjI)
qed
subsection \<open>The bounds check of the walk\<close>


subsection \<open>get_zoom_from_bounds\<close>

text \<open>
  The arithmetic core: for a larger half span \<open>m\<close> with \<open>0 < m \<le> 320\<close> the truncated
  logarithm is a floor, and it is the largest zoom at which the span fits into 640 pixels.
\<close>

lemma zoom_core:
  fixes m :: real
  assumes m: "0 < m" "m \<le> 320"
  defines "z \<equiv> py_int_of_float (- log 2 (m / 640) - 1)"
  shows "0 \<le> z" and "m * 2 powr real_of_int (z + 1) \<le> 640"
    and "640 < m * 2 powr real_of_int (z + 2)"
    and "\<And>z'::int. m * 2 powr real_of_int (z' + 1) \<le> 640 \<Longrightarrow> z' \<le> z"
proof -
  define r where "r = - log 2 (m / 640) - 1"
  have q: "0 < m / 640" "m / 640 \<le> 1 / 2" using m by auto
  have "log 2 (m / 640) \<le> log 2 (1 / 2)"
    using q by (subst log_le_cancel_iff) auto
  also have "log 2 (1 / 2) = - 1"
    by (simp add: log_divide)
  finally have r0: "0 \<le> r" by (simp add: r_def)
  have zr: "z = \<lfloor>r\<rfloor>" using r0 by (simp add: z_def r_def py_int_of_float_def)
  have pw: "2 powr (r + 1) = 640 / m"
  proof -
    have "2 powr (r + 1) = 2 powr (- log 2 (m / 640))" by (simp add: r_def)
    also have "\<dots> = inverse (2 powr log 2 (m / 640))" by (simp only: powr_minus)
    also have "\<dots> = inverse (m / 640)" using q by simp
    finally show ?thesis by simp
  qed
  show "0 \<le> z" using r0 zr by simp
  have "real_of_int (z + 1) \<le> r + 1" using zr by simp
  then have "2 powr real_of_int (z + 1) \<le> 2 powr (r + 1)" by (intro powr_mono) auto
  then have "2 powr real_of_int (z + 1) \<le> 640 / m" using pw by simp
  then show "m * 2 powr real_of_int (z + 1) \<le> 640"
    using m by (simp add: pos_le_divide_eq mult.commute)
  have "r + 1 < real_of_int (z + 2)" using zr by linarith
  then have "2 powr (r + 1) < 2 powr real_of_int (z + 2)" by (subst powr_less_cancel_iff) auto
  then have "640 / m < 2 powr real_of_int (z + 2)" using pw by simp
  then show "640 < m * 2 powr real_of_int (z + 2)"
    using m by (simp add: pos_divide_less_eq mult.commute)
  fix z' :: int
  assume "m * 2 powr real_of_int (z' + 1) \<le> 640"
  then have "2 powr real_of_int (z' + 1) \<le> 640 / m"
    using m by (simp add: pos_le_divide_eq mult.commute)
  then have "2 powr real_of_int (z' + 1) \<le> 2 powr (r + 1)" using pw by simp
  then have "real_of_int (z' + 1) \<le> r + 1" by (subst (asm) powr_le_cancel_iff) auto
  then have "real_of_int z' \<le> r" by simp
  then show "z' \<le> z" using zr by (simp add: le_floor_iff)
qed


lemma py_int_of_float_le_640: "r \<le> 640 \<Longrightarrow> py_int_of_float r \<le> 640"
  unfolding py_int_of_float_def by (auto simp: floor_le_iff ceiling_le_iff)

lemma half_pw_x_pos:
  assumes "0 < pixel_per_degree c" "snd top_left < snd bottom_right"
  shows "0 < fst (half_pw c top_left bottom_right)"
  using assms by (simp add: half_pw_def latlonToPt_def Let_def)

text \<open>
  C4, amended. For a box whose left longitude is west of its right longitude and whose
  larger half pixel span at the reference zoom is at most 320 (half of the 640 pixel
  maximum), there is a zoom \<open>z \<ge> 0\<close> such that the raw pixel width and height at \<open>z\<close>
  are at most 640, the larger of the two exceeds 640 at \<open>z + 1\<close>, and \<open>z\<close> is the largest
  integer zoom with that property. When \<open>z\<close> is at most \<open>zoom_bound\<close> the function
  returns \<open>z\<close> with a pixel size of at most 640 in each axis; otherwise it raises
  \<open>OutOfBounds\<close>.
\<close>

theorem get_zoom_from_bounds_tightest:
  assumes ts: "tile_size c = 640" and ppd: "0 < pixel_per_degree c" and lon: "snd top_left < snd bottom_right"
    and hp: "half_pw c top_left bottom_right = (hx, hy)" and le: "max hx hy \<le> 320"
  shows "\<exists>z. 0 \<le> z
    \<and> hx * 2 powr real_of_int (z + 1) \<le> 640 \<and> hy * 2 powr real_of_int (z + 1) \<le> 640
    \<and> 640 < max hx hy * 2 powr real_of_int (z + 2)
    \<and> (\<forall>z'::int. max hx hy * 2 powr real_of_int (z' + 1) \<le> 640 \<longrightarrow> z' \<le> z)
    \<and> (if z \<le> zoom_bound
        then \<exists>w h. get_zoom_from_bounds c top_left bottom_right zoom_bound = Inr (z, w, h) \<and> w \<le> 640 \<and> h \<le> 640
        else get_zoom_from_bounds c top_left bottom_right zoom_bound = Inl OutOfBounds)"
proof -
  define m where "m = max hx hy"
  define z where "z = py_int_of_float (- log 2 (m / 640) - 1)"
  have hx0: "0 < hx" using half_pw_x_pos [OF ppd lon] hp by simp
  then have m0: "0 < m" by (simp add: m_def)
  have m1: "m \<le> 320" using le by (simp add: m_def)
  note core = zoom_core [OF m0 m1, folded z_def]
  have s0: "0 \<le> 2 powr real_of_int (z + 1)" by simp
  have "hx \<le> m" "hy \<le> m" by (simp_all add: m_def)
  then have "hx * 2 powr real_of_int (z + 1) \<le> m * 2 powr real_of_int (z + 1)"
    and "hy * 2 powr real_of_int (z + 1) \<le> m * 2 powr real_of_int (z + 1)"
    using s0 by (simp_all add: mult_right_mono)
  then have hx640: "hx * 2 powr real_of_int (z + 1) \<le> 640"
    and hy640: "hy * 2 powr real_of_int (z + 1) \<le> 640"
    using core(2) by linarith+
  have q: "\<not> m / 640 \<le> 0" using m0 by simp
  have res: "get_zoom_from_bounds c top_left bottom_right zoom_bound =
      (if z > zoom_bound then Inl OutOfBounds
       else Inr (z, py_int_of_float (hx * 2 powr real_of_int (z + 1)),
                 py_int_of_float (hy * 2 powr real_of_int (z + 1))))"
    using hx0 by (simp add: get_zoom_from_bounds_def hp ts Let_def z_def m_def)
  have fin: "if z \<le> zoom_bound
        then \<exists>w h. get_zoom_from_bounds c top_left bottom_right zoom_bound = Inr (z, w, h) \<and> w \<le> 640 \<and> h \<le> 640
        else get_zoom_from_bounds c top_left bottom_right zoom_bound = Inl OutOfBounds"
    using py_int_of_float_le_640 [OF hx640] py_int_of_float_le_640 [OF hy640]
    by (simp add: res)
  show ?thesis
    apply (rule exI [of _ z])
    using core(1) hx640 hy640 core(3) core(4) fin
    unfolding m_def by blast
qed


lemma latlonToPt_unclamped:
  assumes "\<bar>sin (radians lat)\<bar> \<le> 1 / 2"
  shows "latlonToPt c lat lon =
    (tile_center_x c + lon * pixel_per_degree c,
     tile_center_y c
       + 0.5 * ln ((1 + sin (radians lat)) / (1 - sin (radians lat))) * - pixel_per_radian c)"
proof -
  have l: "- (1 / 2) \<le> sin (radians lat)" and u: "sin (radians lat) \<le> 1 / 2"
    using assms by (auto simp: abs_le_iff)
  have "max (sin (radians lat)) (- (1 - 1 / 10 ^ 15)) = sin (radians lat)"
    using l by (intro max_absorb1) simp
  moreover have "min (sin (radians lat)) (1 - 1 / 10 ^ 15) = sin (radians lat)"
    using u by (intro min_absorb1) simp
  ultimately
  have "min (max (sin (radians lat)) (- (1 - 1 / 10 ^ 15))) (1 - 1 / 10 ^ 15) = sin (radians lat)"
    by simp
  then show ?thesis by (simp only: latlonToPt_def Let_def)
qed

lemma ln3_le_2: "ln (3::real) \<le> 2"
  using ln_le_minus_one [of "3::real"] by simp

lemma half_pw_witness:
  "half_pw google_consts (30, - 225 / 2) (- 30, 225 / 2) = (80, 64 * ln 3 / pi)"
proof -
  have r1: "radians 30 = pi / 6" and r2: "radians (- 30) = - (pi / 6)"
    by (simp_all add: radians_def)
  have l: "ln (1 / 3 :: real) = - ln 3" by (simp add: ln_div)
  show ?thesis
    by (simp add: half_pw_def latlonToPt_def Let_def google_consts_def r1 r2 sin_30 l
        field_simps)
qed

lemma hy_witness_le: "64 * ln 3 / pi \<le> (80::real)"
proof -
  have "64 * ln 3 / pi \<le> 64 * 2 / 2"
    using ln3_le_2 pi_ge_two by (intro frac_le) auto
  then show ?thesis by simp
qed

theorem get_zoom_from_bounds_tightest_witness:
  "tile_size google_consts = 640 \<and> 0 < pixel_per_degree google_consts
   \<and> snd (30 :: real, - 225 / 2 :: real) < snd (- 30 :: real, 225 / 2 :: real)
   \<and> half_pw google_consts (30, - 225 / 2) (- 30, 225 / 2) = (80, 64 * ln 3 / pi)
   \<and> max 80 (64 * ln 3 / pi) \<le> (320::real)
   \<and> (\<exists>w h. get_zoom_from_bounds google_consts (30, - 225 / 2) (- 30, 225 / 2) 22 = Inr (2, w, h)
          \<and> w \<le> 640 \<and> h \<le> 640)"
proof -
  have a1: "tile_size google_consts = 640" and a2: "0 < pixel_per_degree google_consts"
    by (simp_all add: google_consts_def)
  have a3: "snd (30 :: real, - 225 / 2 :: real) < snd (- 30 :: real, 225 / 2 :: real)" by simp
  have mx: "max 80 (64 * ln 3 / pi) = (80::real)" using hy_witness_le by simp
  have a5: "max 80 (64 * ln 3 / pi) \<le> (320::real)" by (simp add: mx)
  from get_zoom_from_bounds_tightest [OF a1 a2 a3 half_pw_witness a5, of 22]
  obtain z :: int where z1: "80 * 2 powr real_of_int (z + 1) \<le> 640"
    and z2: "640 < max 80 (64 * ln 3 / pi) * 2 powr real_of_int (z + 2)"
    and z3: "if z \<le> 22
        then \<exists>w h. get_zoom_from_bounds google_consts (30, - 225 / 2) (- 30, 225 / 2) 22 = Inr (z, w, h)
               \<and> w \<le> 640 \<and> h \<le> 640
        else get_zoom_from_bounds google_consts (30, - 225 / 2) (- 30, 225 / 2) 22 = Inl OutOfBounds"
    by blast
  have p3: "(2::real) powr 3 = 8" by simp
  from z1 have "2 powr real_of_int (z + 1) \<le> 2 powr 3" by (simp add: p3)
  then have "real_of_int (z + 1) \<le> 3" by (subst (asm) powr_le_cancel_iff) auto
  moreover from z2 have "2 powr 3 < 2 powr real_of_int (z + 2)" by (simp add: mx p3)
  then have "3 < real_of_int (z + 2)" by (subst (asm) powr_less_cancel_iff) auto
  ultimately have "z = 2" by linarith
  with z3 show ?thesis using a1 a2 half_pw_witness a5 by simp
qed

text \<open>
  C4, as stated, fails on a small box: for the non-degenerate box with corners
  \<open>(0.00001, 0)\<close> and \<open>(0, 0.00001)\<close> the zoom computed is above 22, and the function
  raises \<open>OutOfBounds\<close> instead of returning a zoom.
\<close>

theorem get_zoom_from_bounds_small_box_raises:
  "get_zoom_from_bounds google_consts (1 / 100000, 0) (0, 1 / 100000) 22 = Inl OutOfBounds"
proof -
  define t :: real where "t = radians (1 / 100000)"
  define a where "a = sin t"
  have t0: "0 < t" and t1: "t < 1 / 1000000" and tpi: "t = pi / 18000000"
    using pi_less_4 pi_gt_zero by (simp_all add: t_def radians_def)
  have a0: "0 < a" unfolding a_def using t0 t1 pi_ge_two by (intro sin_gt_zero) auto
  have at: "a \<le> t" unfolding a_def using t0 by (intro sin_x_le_x) auto
  have a1: "a < 1 / 1000000" using at t1 by simp
  have sa: "sin (radians (1 / 100000)) = a" by (simp add: a_def t_def)
  have p1: "latlonToPt google_consts (1 / 100000) 0 =
      (128, 128 + 0.5 * ln ((1 + a) / (1 - a)) * - (256 / (2 * pi)))"
    using a0 a1 by (subst latlonToPt_unclamped) (simp_all add: sa google_consts_def)
  have p2: "latlonToPt google_consts 0 (1 / 100000) = (128 + 1 / 100000 * (256 / 360), 128)"
    by (subst latlonToPt_unclamped) (simp_all add: radians_def google_consts_def)
  define hx :: real where "hx = 1 / 100000 * (256 / 360) / 2"
  define hy where "hy = ln ((1 + a) / (1 - a)) * (256 / (2 * pi)) / 4"
  have hp: "half_pw google_consts (1 / 100000, 0) (0, 1 / 100000) = (hx, hy)"
    by (simp add: half_pw_def Let_def p1 p2 hx_def hy_def)
  have ratio: "0 < (1 + a) / (1 - a)" using a0 a1 by simp
  have "ln ((1 + a) / (1 - a)) \<le> (1 + a) / (1 - a) - 1" by (rule ln_le_minus_one [OF ratio])
  also have "\<dots> = 2 * a / (1 - a)" using a1 by (simp add: field_simps)
  also have "\<dots> \<le> 2 * a / (1 / 2)" using a0 a1 by (intro divide_left_mono) auto
  finally have lnb: "ln ((1 + a) / (1 - a)) \<le> 4 * a" by simp
  have "hy \<le> 4 * a * (256 / (2 * pi)) / 4"
    unfolding hy_def using lnb pi_gt_zero by (intro divide_right_mono mult_right_mono) auto
  also have "\<dots> = a * (128 / pi)" by simp
  also have "\<dots> \<le> t * (128 / pi)" using at pi_gt_zero by (intro mult_right_mono) auto
  also have "\<dots> = 128 / 18000000" by (simp add: tpi)
  finally have hyb: "hy \<le> 128 / 18000000" .
  define m where "m = max hx hy"
  have hx0: "0 < hx" by (simp add: hx_def)
  have m0: "0 < m" using hx0 by (simp add: m_def)
  have mb: "m \<le> 640 / 2 ^ 24" using hyb by (simp add: m_def hx_def)
  have "m / 640 \<le> 2 powr (- 24)"
  proof -
    have "(2::real) powr (- 24) = 1 / 2 ^ 24" by (simp add: powr_minus_divide)
    then show ?thesis using mb by simp
  qed
  then have "log 2 (m / 640) \<le> log 2 (2 powr (- 24))"
    using m0 by (subst log_le_cancel_iff) auto
  then have lg: "log 2 (m / 640) \<le> - 24" by simp
  define z where "z = py_int_of_float (- log 2 (m / 640) - 1)"
  have "23 \<le> - log 2 (m / 640) - 1" using lg by simp
  then have "23 \<le> z" unfolding z_def py_int_of_float_def by (auto simp: le_floor_iff)
  then have zb: "z > 22" by simp
  have ts: "tile_size google_consts = 640" by (simp add: google_consts_def)
  show ?thesis
    using hx0 zb
    by (simp add: get_zoom_from_bounds_def hp Let_def ts z_def m_def)
qed

subsection \<open>collect_tiles: tile indices at concrete corners\<close>

text \<open>
  The corners \<open>(30, -90)\<close> and \<open>(-30, 90)\<close> have closed forms: the tangent plus the
  secant of 30 degrees is \<open>sqrt 3\<close>, and \<open>ln (sqrt 3) / pi\<close> lies between 0 and 1/2.
\<close>

lemma radians_30: "radians 30 = pi / 6" "radians (- 30) = - (pi / 6)"
  by (simp_all add: radians_def)

lemma sqrt3_sq: "sqrt 3 * sqrt 3 = (3::real)"
  by simp

lemma tan_sec_30: "tan (radians 30) + 1 / cos (radians 30) = sqrt 3"
proof -
  have "1 / sqrt 3 + 2 / sqrt 3 = 3 / sqrt (3::real)" by simp
  also have "\<dots> = sqrt 3" using sqrt3_sq by (simp add: field_simps)
  finally show ?thesis by (simp add: radians_30 tan_30 cos_30)
qed

lemma tan_sec_m30: "tan (radians (- 30)) + 1 / cos (radians (- 30)) = 1 / sqrt 3"
  by (simp add: radians_30 tan_30 cos_30)

lemma ln_sqrt3_bounds: "0 < ln (sqrt 3) / pi" "ln (sqrt 3) / pi \<le> 1 / 2"
proof -
  have s1: "1 < sqrt (3::real)" by simp
  then show "0 < ln (sqrt 3) / pi" by simp
  have "sqrt (3::real) \<le> 2" by (rule real_le_lsqrt) simp_all
  moreover have "ln (sqrt 3) \<le> sqrt 3 - 1" using s1 by (intro ln_le_minus_one) simp
  ultimately have "ln (sqrt 3) \<le> 1" by simp
  then have "ln (sqrt 3) / pi \<le> 1 / 2" using pi_ge_two by (intro frac_le) auto
  then show "ln (sqrt 3) / pi \<le> 1 / 2" .
qed

lemma py_int_of_float_unit: "0 \<le> r \<Longrightarrow> r < 1 \<Longrightarrow> py_int_of_float r = 0"
  by (simp add: py_int_of_float_def floor_eq_iff)

lemma py_int_of_float_one: "1 \<le> r \<Longrightarrow> r < 2 \<Longrightarrow> py_int_of_float r = 1"
  by (simp add: py_int_of_float_def floor_eq_iff)

lemma generate_tile_info_eq:
  assumes "cos (radians lat) \<noteq> 0" and "tan (radians lat) + 1 / cos (radians lat) = s" and "0 < s"
    and "py_int_of_float ((lon + 180) / 360 * 2 powr z) = tx"
    and "py_int_of_float ((1 - ln s / pi) / 2 * 2 powr z) = ty"
  shows "generate_tile_info (lat, lon) z =
    Inr (tx, ty, py_int_of_float ((lon + 180) / 360 * 2 powr z * 256 - real_of_int tx * 256),
         py_int_of_float ((1 - ln s / pi) / 2 * 2 powr z * 256 - real_of_int ty * 256))"
  using assms by (simp add: generate_tile_info_def Let_def)

lemma generate_tile_info_nw_1:
  "\<exists>py. generate_tile_info (30, - 90) 1 = Inr (0, 0, 128, py)"
proof -
  define L :: real where "L = ln (sqrt 3) / pi"
  have L: "0 < L" "L \<le> 1 / 2" using ln_sqrt3_bounds by (simp_all add: L_def)
  have c: "cos (radians 30) \<noteq> 0" by (simp add: radians_30 cos_30)
  have "(1 - L) / 2 * 2 powr 1 = 1 - L" by simp
  then have y: "py_int_of_float ((1 - ln (sqrt 3) / pi) / 2 * 2 powr 1) = 0"
    unfolding L_def [symmetric] using L by (simp add: py_int_of_float_unit)
  have x: "py_int_of_float ((- 90 + 180) / 360 * 2 powr 1) = 0"
    by (intro py_int_of_float_unit) auto
  have px: "py_int_of_float ((- 90 + 180) / 360 * 2 powr 1 * 256 - real_of_int 0 * 256) = 128"
    by (simp add: py_int_of_float_def)
  show ?thesis
    using generate_tile_info_eq [OF c tan_sec_30 _ x y] px by simp
qed

lemma generate_tile_info_se_1:
  "\<exists>py. generate_tile_info (- 30, 90) 1 = Inr (1, 1, 128, py)"
proof -
  define L :: real where "L = ln (sqrt 3) / pi"
  have L: "0 < L" "L \<le> 1 / 2" using ln_sqrt3_bounds by (simp_all add: L_def)
  have c: "cos (radians (- 30)) \<noteq> 0" by (simp add: radians_30 cos_30)
  have l: "ln (1 / sqrt 3) = - ln (sqrt 3)" by (simp add: ln_div)
  have "(1 + L) / 2 * 2 powr 1 = 1 + L" by simp
  then have y: "py_int_of_float ((1 - ln (1 / sqrt 3) / pi) / 2 * 2 powr 1) = 1"
    unfolding l minus_divide_left [symmetric] diff_minus_eq_add L_def [symmetric]
    using L by (simp add: py_int_of_float_one)
  have x: "py_int_of_float ((90 + 180) / 360 * 2 powr 1) = 1"
    by (intro py_int_of_float_one) auto
  have px: "py_int_of_float ((90 + 180) / 360 * 2 powr 1 * 256 - real_of_int 1 * 256) = 128"
    by (simp add: py_int_of_float_def)
  show ?thesis
    using generate_tile_info_eq [OF c tan_sec_m30 _ x y] px by simp
qed


lemma generate_tile_info_nw_0:
  "\<exists>py. generate_tile_info (30, - 90) 0 = Inr (0, 0, 64, py)"
proof -
  define L :: real where "L = ln (sqrt 3) / pi"
  have L: "0 < L" "L \<le> 1 / 2" using ln_sqrt3_bounds by (simp_all add: L_def)
  have c: "cos (radians 30) \<noteq> 0" by (simp add: radians_30 cos_30)
  have y: "py_int_of_float ((1 - ln (sqrt 3) / pi) / 2 * 2 powr 0) = 0"
    unfolding L_def [symmetric] using L by (simp add: py_int_of_float_unit)
  have x: "py_int_of_float ((- 90 + 180) / 360 * 2 powr 0) = 0"
    by (intro py_int_of_float_unit) auto
  have px: "py_int_of_float ((- 90 + 180) / 360 * 2 powr 0 * 256 - real_of_int 0 * 256) = 64"
    by (simp add: py_int_of_float_def)
  show ?thesis
    using generate_tile_info_eq [OF c tan_sec_30 _ x y] px by simp
qed

lemma generate_tile_info_se_0:
  "\<exists>py. generate_tile_info (- 30, 90) 0 = Inr (0, 0, 192, py)"
proof -
  define L :: real where "L = ln (sqrt 3) / pi"
  have L: "0 < L" "L \<le> 1 / 2" using ln_sqrt3_bounds by (simp_all add: L_def)
  have c: "cos (radians (- 30)) \<noteq> 0" by (simp add: radians_30 cos_30)
  have l: "ln (1 / sqrt 3) = - ln (sqrt 3)" by (simp add: ln_div)
  have y: "py_int_of_float ((1 - ln (1 / sqrt 3) / pi) / 2 * 2 powr 0) = 0"
    unfolding l minus_divide_left [symmetric] diff_minus_eq_add L_def [symmetric]
    using L by (simp add: py_int_of_float_unit)
  have x: "py_int_of_float ((90 + 180) / 360 * 2 powr 0) = 0"
    by (intro py_int_of_float_unit) auto
  have px: "py_int_of_float ((90 + 180) / 360 * 2 powr 0 * 256 - real_of_int 0 * 256) = 192"
    by (simp add: py_int_of_float_def)
  show ?thesis
    using generate_tile_info_eq [OF c tan_sec_m30 _ x y] px by simp
qed

lemma upto_0_1: "[0 .. 1 :: int] = [0, 1]" and upto_0_0: "[0 .. 0 :: int] = [0]"
  by (simp_all add: upto.simps)

lemma fetch_attempts_up: "fetch_attempts tile_server_up r [1 ..< 10 + 1] = ([r], True)"
proof -
  have "[1 ..< 10 + 1] = (1::nat) # [2 ..< 11]" by (simp add: upt_conv_Cons)
  then show ?thesis by (simp add: tile_server_up_def)
qed

lemma fetch_and_paste_up:
  "fetch_and_paste tile_server_up z ti x y ''satellite'' 10 =
     ([\<lparr>lyrs = ''s'', req_x = x, req_y = y, req_z = z\<rparr>],
      Some ((x - fst ti) * 256, (y - fst (snd ti)) * 256))"
  by (simp only: fetch_and_paste_def map_types_def fetch_attempts_up Let_def) simp

subsection \<open>The names of the files\<close>



subsection \<open>collect_tiles: effective zoom and canvas\<close>

lemma fetch_attempts_reqs: "set (fst (fetch_attempts http r ks)) \<subseteq> {r}"
  by (induction ks) (auto split: prod.splits)

lemma fetch_and_paste_zoom:
  assumes "q \<in> set (fst (fetch_and_paste http z ti x y mt k))"
  shows "req_z q = z"
proof (cases "map_of map_types mt")
  case None
  with assms show ?thesis by (simp add: fetch_and_paste_def)
next
  case (Some code)
  define r where "r = \<lparr>lyrs = code, req_x = x, req_y = y, req_z = z\<rparr>"
  from assms Some have "q \<in> set (fst (fetch_attempts http r [1 ..< k + 1]))"
    by (simp only: fetch_and_paste_def r_def Let_def option.case case_prod_beta fst_conv)
  with fetch_attempts_reqs [of http r "[1 ..< k + 1]"] have "q = r" by blast
  then show ?thesis by (simp add: r_def)
qed





subsection \<open>collect_tiles: degenerate boxes\<close>

text \<open>
  C8, as stated, fails on a box of zero tile span: at zoom 0 the corners \<open>(30, -90)\<close>
  and \<open>(-30, 90)\<close> lie in the same tile, the stitch requests that tile and returns an
  image; nothing fails.
\<close>

theorem collect_tiles_one_tile_box_is_stitched:
  "\<not> isl (fst (collect_tiles tile_server_up (30, - 90) (- 30, 90) 0 ''satellite'' 0))
   \<and> snd (collect_tiles tile_server_up (30, - 90) (- 30, 90) 0 ''satellite'' 0) =
       [\<lparr>lyrs = ''s'', req_x = 0, req_y = 0, req_z = 0\<rparr>]
   \<and> fst (projr (generate_tile_info (- 30, 90) (min (real_of_int 0 + 0) 22)))
       - fst (projr (generate_tile_info (30, - 90) (min (real_of_int 0 + 0) 22))) = 0
   \<and> fst (snd (projr (generate_tile_info (- 30, 90) (min (real_of_int 0 + 0) 22))))
       - fst (snd (projr (generate_tile_info (30, - 90) (min (real_of_int 0 + 0) 22)))) = 0"
proof -
  obtain py1 where nw: "generate_tile_info (30, - 90) 0 = Inr (0, 0, 64, py1)"
    using generate_tile_info_nw_0 by blast
  obtain py2 where se: "generate_tile_info (- 30, 90) 0 = Inr (0, 0, 192, py2)"
    using generate_tile_info_se_0 by blast
  have z: "min (real_of_int 0 + 0) 22 = (0::real)" by simp
  have run: "collect_tiles tile_server_up (30, - 90) (- 30, 90) 0 ''satellite'' 0 =
     (Inr \<lparr>canvas = (256, 256), pasted = [(0, 0)],
           crop_box = (64, py1, 64 + \<bar>192 - 64\<bar>, py1 + \<bar>py2 - py1\<bar>)\<rparr>,
      [\<lparr>lyrs = ''s'', req_x = 0, req_y = 0, req_z = 0\<rparr>])"
    unfolding collect_tiles_def z
    by (simp add: nw se Let_def upto_0_0 fetch_and_paste_up List.map_filter_def)
  show ?thesis unfolding z by (simp add: run nw se)
qed

lemma generate_tile_info_no_geometry_error:
  "generate_tile_info loc z \<noteq> Inl InvalidGeometryError"
  by (simp add: generate_tile_info_def Let_def)

text \<open>
  C8, amended. \<open>collect_tiles\<close> has no check of the tile span and never raises
  \<open>InvalidGeometryError\<close>. With the tile indices of the two corners at the effective
  zoom: when the span is negative in either axis no tile is requested; when the number of
  tiles (span plus one) is negative in either axis the allocation of the canvas fails with
  the image library's \<open>ValueError\<close>; otherwise, and in particular for a span of zero,
  the stitch returns an image on a canvas of \<open>(span + 1) * 256\<close> pixels in each axis.
\<close>

theorem collect_tiles_no_span_check:
  "fst (collect_tiles http top_left bottom_right zoom map_type resolution) \<noteq> Inl InvalidGeometryError
   \<and> (generate_tile_info top_left (min (real_of_int zoom + resolution) 22)
         = Inr (tl_x, tl_y, tl_px, tl_py)
      \<and> generate_tile_info bottom_right (min (real_of_int zoom + resolution) 22)
         = Inr (br_x, br_y, br_px, br_py) \<longrightarrow>
        (br_x < tl_x \<or> br_y < tl_y \<longrightarrow>
           snd (collect_tiles http top_left bottom_right zoom map_type resolution) = [])
      \<and> (br_x - tl_x + 1 < 0 \<or> br_y - tl_y + 1 < 0 \<longrightarrow>
           fst (collect_tiles http top_left bottom_right zoom map_type resolution) = Inl ValueError)
      \<and> (0 \<le> br_x - tl_x + 1 \<and> 0 \<le> br_y - tl_y + 1 \<longrightarrow>
           (\<exists>img. fst (collect_tiles http top_left bottom_right zoom map_type resolution) = Inr img
              \<and> canvas img = ((br_x - tl_x + 1) * 256, (br_y - tl_y + 1) * 256))))"
proof (intro conjI impI)
  show "fst (collect_tiles http top_left bottom_right zoom map_type resolution)
          \<noteq> Inl InvalidGeometryError"
    using generate_tile_info_no_geometry_error [of top_left]
      generate_tile_info_no_geometry_error [of bottom_right]
    by (simp add: collect_tiles_def Let_def split: sum.splits prod.splits) blast
next
  assume g: "generate_tile_info top_left (min (real_of_int zoom + resolution) 22)
         = Inr (tl_x, tl_y, tl_px, tl_py)
      \<and> generate_tile_info bottom_right (min (real_of_int zoom + resolution) 22)
         = Inr (br_x, br_y, br_px, br_py)"
  assume "br_x < tl_x \<or> br_y < tl_y"
  then have "[tl_x .. br_x] = [] \<or> [tl_y .. br_y] = []"
    by auto
  then show "snd (collect_tiles http top_left bottom_right zoom map_type resolution) = []"
    using g by (auto simp: collect_tiles_def Let_def)
next
  assume g: "generate_tile_info top_left (min (real_of_int zoom + resolution) 22)
         = Inr (tl_x, tl_y, tl_px, tl_py)
      \<and> generate_tile_info bottom_right (min (real_of_int zoom + resolution) 22)
         = Inr (br_x, br_y, br_px, br_py)"
  assume "br_x - tl_x + 1 < 0 \<or> br_y - tl_y + 1 < 0"
  then show "fst (collect_tiles http top_left bottom_right zoom map_type resolution) = Inl ValueError"
    using g by (auto simp: collect_tiles_def Let_def)
next
  assume g: "generate_tile_info top_left (min (real_of_int zoom + resolution) 22)
         = Inr (tl_x, tl_y, tl_px, tl_py)
      \<and> generate_tile_info bottom_right (min (real_of_int zoom + resolution) 22)
         = Inr (br_x, br_y, br_px, br_py)"
  assume "0 \<le> br_x - tl_x + 1 \<and> 0 \<le> br_y - tl_y + 1"
  then show "\<exists>img. fst (collect_tiles http top_left bottom_right zoom map_type resolution) = Inr img
              \<and> canvas img = ((br_x - tl_x + 1) * 256, (br_y - tl_y + 1) * 256)"
    using g by (auto simp: collect_tiles_def Let_def)
qed


lemma generate_tile_info_se_2:
  "\<exists>ty px py. generate_tile_info (- 30, 90) 2 = Inr (3, ty, px, py)"
proof -
  have c: "cos (radians (- 30)) \<noteq> 0" by (simp add: radians_30 cos_30)
  have x: "py_int_of_float ((90 + 180) / 360 * 2 powr 2) = 3"
    by (simp add: py_int_of_float_def)
  show ?thesis
    using generate_tile_info_eq [OF c tan_sec_m30 _ x refl] by simp
qed

lemma generate_tile_info_nw_2:
  "\<exists>ty px py. generate_tile_info (30, - 90) 2 = Inr (1, ty, px, py)"
proof -
  have c: "cos (radians 30) \<noteq> 0" by (simp add: radians_30 cos_30)
  have x: "py_int_of_float ((- 90 + 180) / 360 * 2 powr 2) = 1"
    by (simp add: py_int_of_float_def)
  show ?thesis
    using generate_tile_info_eq [OF c tan_sec_30 _ x refl] by simp
qed

theorem collect_tiles_no_span_check_witness:
  "(\<exists>img. fst (collect_tiles tile_server_up (30, - 90) (- 30, 90) 0 ''satellite'' 0) = Inr img
       \<and> canvas img = (256, 256))
   \<and> fst (collect_tiles tile_server_up (30, - 90) (- 30, 90) 0 ''satellite'' 0)
       \<noteq> Inl InvalidGeometryError
   \<and> snd (collect_tiles tile_server_up (- 30, 90) (30, - 90) 1 ''satellite'' 0) = []
   \<and> fst (collect_tiles tile_server_up (- 30, 90) (30, - 90) 2 ''satellite'' 0) = Inl ValueError"
proof -
  obtain py1 where nw0: "generate_tile_info (30, - 90) (min (real_of_int 0 + 0) 22) = Inr (0, 0, 64, py1)"
    using generate_tile_info_nw_0 by auto
  obtain py2 where se0: "generate_tile_info (- 30, 90) (min (real_of_int 0 + 0) 22) = Inr (0, 0, 192, py2)"
    using generate_tile_info_se_0 by auto
  obtain py3 where nw1: "generate_tile_info (30, - 90) (min (real_of_int 1 + 0) 22) = Inr (0, 0, 128, py3)"
    using generate_tile_info_nw_1 by auto
  obtain py4 where se1: "generate_tile_info (- 30, 90) (min (real_of_int 1 + 0) 22) = Inr (1, 1, 128, py4)"
    using generate_tile_info_se_1 by auto
  obtain ty5 px5 py5
    where nw2: "generate_tile_info (30, - 90) (min (real_of_int 2 + 0) 22) = Inr (1, ty5, px5, py5)"
    using generate_tile_info_nw_2 by auto
  obtain ty6 px6 py6
    where se2: "generate_tile_info (- 30, 90) (min (real_of_int 2 + 0) 22) = Inr (3, ty6, px6, py6)"
    using generate_tile_info_se_2 by auto
  note a = collect_tiles_no_span_check
    [of tile_server_up "(30, - 90)" "(- 30, 90)" 0 "''satellite''" 0 0 0 64 py1 0 0 192 py2]
  note b = collect_tiles_no_span_check
    [of tile_server_up "(- 30, 90)" "(30, - 90)" 1 "''satellite''" 0 1 1 128 py4 0 0 128 py3]
  note c = collect_tiles_no_span_check
    [of tile_server_up "(- 30, 90)" "(30, - 90)" 2 "''satellite''" 0 3 ty6 px6 py6 1 ty5 px5 py5]
  have "\<exists>img. fst (collect_tiles tile_server_up (30, - 90) (- 30, 90) 0 ''satellite'' 0) = Inr img
       \<and> canvas img = (256, 256)"
    using a nw0 se0 by simp
  moreover have "fst (collect_tiles tile_server_up (30, - 90) (- 30, 90) 0 ''satellite'' 0)
       \<noteq> Inl InvalidGeometryError"
    using a by blast
  moreover have "snd (collect_tiles tile_server_up (- 30, 90) (30, - 90) 1 ''satellite'' 0) = []"
    using b nw1 se1 by simp
  moreover have "fst (collect_tiles tile_server_up (- 30, 90) (30, - 90) 2 ''satellite'' 0) = Inl ValueError"
    using c nw2 se2 by simp
  ultimately show ?thesis by blast
qed

subsection \<open>get_map_dim_m\<close>

text \<open>
  C9, as stated, at a concrete input: with a field of view of 90 degrees, altitude 0 and
  aspect ratio 1 the design document's function fails with \<open>InvalidGeometryError\<close>,
  while \<open>get_map_dim_m\<close> returns the footprint \<open>(0, 0)\<close> (and the altitude 0).
\<close>

theorem get_map_dim_m_degenerate_returns:
  "get_map_dim_m 90 0 1 = (0, 0, 0) \<and> footprintMeters 90 0 1 = Inl InvalidGeometryError"
  by (simp add: get_map_dim_m_def footprintMeters_def)

text \<open>
  C9, amended: \<open>get_map_dim_m\<close> validates nothing and never fails. For every input it
  returns width \<open>d * sin (atan aspect_ratio)\<close>, height \<open>d * cos (atan aspect_ratio)\<close> and the
  altitude, with \<open>d = 2 * altitude * tan (fov / 2)\<close>; on the non-degenerate inputs
  (field of view below 180 degrees and positive altitude) this is the footprint of the
  design document's \<open>footprintMeters\<close>.
\<close>

theorem get_map_dim_m_formula:
  "get_map_dim_m fov agl ar =
     (2 * agl * tan (radians (fov / 2)) * sin (arctan ar),
      2 * agl * tan (radians (fov / 2)) * cos (arctan ar),
      agl)
   \<and> (fov < 180 \<and> 0 < agl \<longrightarrow>
        footprintMeters fov agl ar =
          Inr (fst (get_map_dim_m fov agl ar), fst (snd (get_map_dim_m fov agl ar))))"
  by (simp add: get_map_dim_m_def footprintMeters_def Let_def)

theorem get_map_dim_m_formula_witness:
  "(90::real) < 180 \<and> (0::real) < 120
   \<and> footprintMeters 90 120 1 =
       Inr (fst (get_map_dim_m 90 120 1), fst (snd (get_map_dim_m 90 120 1)))
   \<and> get_map_dim_m 90 120 1 = (240 * sin (pi / 4), 240 * cos (pi / 4), 120)"
  using get_map_dim_m_formula [of 90 120 1]
  by (simp add: radians_def tan_45 arctan_one)

subsection \<open>Strict parsing of the last file name\<close>

lemma parse_last_img_name_strict:
  assumes "\<not> (\<exists>f1 f2 f3 f4 f5 i j p q.
              py_split (CHR ''_'') (drop_last4 name) = [f1, f2, f3, f4, f5]
              \<and> py_int e f1 = Some i \<and> py_int e f2 = Some j
              \<and> py_float e f3 = Some p \<and> py_float e f4 = Some q)"
  shows "parse_last_img_name e name = Inl ValueError"
  using assms unfolding parse_last_img_name_def
  by (auto split: list.splits option.splits)

text \<open>
  C10. When the name of the latest file, without its last four characters, does not split
  at the underscores into exactly five fields of which \<open>int\<close> accepts the first two and
  \<open>float\<close> the next two, the parsing raises \<open>ValueError\<close>, and \<open>gen_raster_from_map\<close>
  ends with an exception, with the directory as it was and without any request to the
  tile server: nothing has been downloaded and nothing written.
\<close>

theorem gen_raster_from_map_strict_parse:
  assumes "\<not> (\<exists>f1 f2 f3 f4 f5 i j p q.
              py_split (CHR ''_'') (drop_last4 name) = [f1, f2, f3, f4, f5]
              \<and> py_int e f1 = Some i \<and> py_int e f2 = Some j
              \<and> py_float e f3 = Some p \<and> py_float e f4 = Some q)"
  shows "parse_last_img_name e name = Inl ValueError
    \<and> (\<exists>err l'. gen_raster_from_map e a l d top_left_coords bottom_right_coords overlap (Some name)
                   = (Raised err, l', d, []))"
proof -
  have p: "parse_last_img_name e name = Inl ValueError"
    by (rule parse_last_img_name_strict [OF assms])
  have "resume_cursor e c top_left_coords tlm (Some name) = Inl ValueError" for c tlm
    by (simp add: resume_cursor_def p Let_def)
  then have "\<exists>err l'. gen_raster_from_map e a l d top_left_coords bottom_right_coords overlap (Some name)
                   = (Raised err, l', d, [])"
    by (simp add: gen_raster_from_map_def Let_def split: prod.splits sum.splits)
  with p show ?thesis by simp
qed

theorem gen_raster_from_map_strict_parse_witness:
  "py_split (CHR ''_'') (drop_last4 ''3_2_35.16_19.jpg'') = [''3'', ''2'', ''35.16'', ''19'']
   \<and> parse_last_img_name flat_env ''3_2_35.16_19.jpg'' = Inl ValueError
   \<and> (\<exists>err l'. gen_raster_from_map flat_env demo_args demo_log [] (3516 / 100, - 899 / 10)
          (35115 / 1000, - 89823 / 1000) 0 (Some ''3_2_35.16_19.jpg'') = (Raised err, l', [], []))"
proof -
  have s: "py_split (CHR ''_'') (drop_last4 ''3_2_35.16_19.jpg'') = [''3'', ''2'', ''35.16'', ''19'']"
    by (simp add: drop_last4_def)
  then have "\<not> (\<exists>f1 f2 f3 f4 f5 i j p q.
              py_split (CHR ''_'') (drop_last4 ''3_2_35.16_19.jpg'') = [f1, f2, f3, f4, f5]
              \<and> py_int flat_env f1 = Some i \<and> py_int flat_env f2 = Some j
              \<and> py_float flat_env f3 = Some p \<and> py_float flat_env f4 = Some q)"
    by simp
  from gen_raster_from_map_strict_parse [OF this] s show ?thesis by blast
qed

end
